theory Spec2Isabelle
  imports Main "HOL-Library.Word"
begin

text \<open>
  A shallow embedding of \<open>bitcoinlib/transactions.py\<close>: the decoder
  \<open>deserialize_transaction\<close>, the ScriptSig parser \<open>parse_script_sig\<close>, and the methods
  \<open>input_addresses\<close>, \<open>raw\<close> and \<open>verify\<close> of \<open>class Transaction\<close>. The modules it
  imports (\<open>bitcoinlib.encoding\<close>, \<open>bitcoinlib.keys\<close>, the curve library) are not part
  of it: the VarInt codec and \<open>change_base\<close> are modelled from the specification, the
  cryptography is a parameter.
\<close>

section \<open>Bytes, Python slicing and the errors of the program\<close>

text \<open>
  A Python \<open>bytes\<close> value is a list of 8-bit words. Every exception the program can raise
  is a value of type \<open>error\<close>; a function that may raise returns \<open>error + 'a\<close>, with
  \<open>Inl\<close> for the exception.
\<close>

type_synonym byte = "8 word"
type_synonym bytes = "byte list"

text \<open>
  The three messages with which \<open>deserialize_transaction\<close> raises \<open>TransactionError\<close>.
  The constructor of the exception also writes the message to the logger; the model keeps
  the message in the error value only.
\<close>

datatype tx_failure =
    HashNotFound                \<comment> \<open>"Input transaction hash not found. Probably malformed raw transaction"\<close>
  | InputCountMismatch nat nat  \<comment> \<open>"Error parsing inputs. Number of tx specified %d but %d found"\<close>
  | NoOutputs                   \<comment> \<open>"Error no outputs found in this transaction"\<close>

datatype error =
    TransactionError tx_failure \<comment> \<open>\<open>class TransactionError(Exception)\<close>\<close>
  | FormatError                 \<comment> \<open>the VarInt codec's failure on a truncated buffer\<close>
  | IndexError                  \<comment> \<open>Python's \<open>s[i]\<close> out of range\<close>
  | StructError                 \<comment> \<open>\<open>struct.error\<close>: a value that does not fit the packed width\<close>
  | KeyFailure                  \<comment> \<open>an exception of the key module or of the curve library\<close>
  | DerFailure                  \<comment> \<open>an exception of the DER signature routine\<close>
  | BadSignatureError           \<comment> \<open>the curve library's signature mismatch\<close>

text \<open>
  The specification files every malformed-wire failure under one kind, \<open>FormatError\<close>:
  the decoder's own \<open>TransactionError\<close>s and the VarInt codec's failure.
\<close>

fun is_format_error :: "error \<Rightarrow> bool" where
  "is_format_error (TransactionError m) = True"
| "is_format_error FormatError = True"
| "is_format_error e = False"

text \<open>
  Python's \<open>s[a:b]\<close> for \<open>0 \<le> a\<close>, \<open>0 \<le> b\<close>: it never raises, and it is shorter than
  \<open>b - a\<close> where the buffer ends early (empty where \<open>b \<le> a\<close> or \<open>a\<close> is past the end).
\<close>

definition slice :: "'a list \<Rightarrow> nat \<Rightarrow> nat \<Rightarrow> 'a list" where
  "slice s a b = take (b - a) (drop a s)"

text \<open>Python's \<open>s[i]\<close> for \<open>0 \<le> i\<close>: \<open>IndexError\<close> out of range.\<close>

definition index :: "'a list \<Rightarrow> nat \<Rightarrow> error + 'a" where
  "index s i = (if i < length s then Inr (s ! i) else Inl IndexError)"

text \<open>Python's \<open>r[i]\<close> for any integer \<open>i\<close>: a negative index counts from the end.\<close>

definition index_int :: "'a list \<Rightarrow> int \<Rightarrow> error + 'a" where
  "index_int r i =
     (if 0 \<le> i \<and> i < int (length r) then Inr (r ! nat i)
      else if i < 0 \<and> - int (length r) \<le> i then Inr (r ! nat (int (length r) + i))
      else Inl IndexError)"

section \<open>Integers on the wire\<close>

text \<open>Little-endian bytes of a number, at a fixed width, and back.\<close>

fun le_bytes :: "nat \<Rightarrow> nat \<Rightarrow> bytes" where
  "le_bytes 0 n = []"
| "le_bytes (Suc w) n = of_nat (n mod 256) # le_bytes w (n div 256)"

fun le_to_nat :: "bytes \<Rightarrow> nat" where
  "le_to_nat [] = 0"
| "le_to_nat (b # bs) = unat b + 256 * le_to_nat bs"

text \<open>
  Modelled from the spec: \<open>change_base(x, 256, 10)\<close> of \<open>bitcoinlib.encoding\<close>, which is
  not among the sources. The decoder calls it on a reversed little-endian field to read it
  as an integer ("read 8 bytes as little-endian amount", "read final 4 bytes as
  little-endian locktime"), so on bytes it is the big-endian value.
\<close>

definition change_base_256_10 :: "bytes \<Rightarrow> int" where
  "change_base_256_10 x = int (foldl (\<lambda>a b. 256 * a + unat b) 0 x)"

text \<open>
  \<open>struct.pack\<close> with the formats the encoder uses: \<open>'B'\<close> (one byte), \<open>'<L'\<close> (four
  bytes, little-endian) and \<open>'<Q'\<close> (eight). It raises \<open>struct.error\<close> when the number
  is negative or too large for the width.
\<close>

definition pack_B :: "int \<Rightarrow> error + bytes" where
  "pack_B n = (if 0 \<le> n \<and> n < 2 ^ 8 then Inr (le_bytes 1 (nat n)) else Inl StructError)"

definition pack_L :: "int \<Rightarrow> error + bytes" where
  "pack_L n = (if 0 \<le> n \<and> n < 2 ^ 32 then Inr (le_bytes 4 (nat n)) else Inl StructError)"

definition pack_Q :: "int \<Rightarrow> error + bytes" where
  "pack_Q n = (if 0 \<le> n \<and> n < 2 ^ 64 then Inr (le_bytes 8 (nat n)) else Inl StructError)"

section \<open>VarInt codec\<close>

text \<open>
  Modelled from the spec: \<open>varbyteint_to_int\<close> and \<open>int_to_varbyteint\<close> of
  \<open>bitcoinlib.encoding\<close>, which is not among the sources. Section 4.1 of the specification:
  the first byte gives the width; 0 to 252 are literal, 253 is followed by a little-endian
  16-bit value, 254 by a 32-bit one, 255 by a 64-bit one; decoding "fails with FormatError
  if fewer bytes remain than the selected width requires" and returns the value with the
  number of bytes consumed; encoding "must always choose the minimal-width encoding".
  The specification gives the encoder the domain \<open>u64\<close>; beyond it the model raises.
\<close>

definition varbyteint_to_int :: "bytes \<Rightarrow> error + (nat \<times> nat)" where
  "varbyteint_to_int byteint =
     (case byteint of
        [] \<Rightarrow> Inl FormatError
      | ni # rest \<Rightarrow>
          if unat ni < 253 then Inr (unat ni, 1)
          else
            let size = (if unat ni = 253 then 2 else if unat ni = 254 then 4 else 8 :: nat)
            in if length rest < size then Inl FormatError
               else Inr (le_to_nat (take size rest), size + 1))"

definition int_to_varbyteint :: "nat \<Rightarrow> error + bytes" where
  "int_to_varbyteint n =
     (if n < 253 then Inr [of_nat n]
      else if n < 2 ^ 16 then Inr (253 # le_bytes 2 n)
      else if n < 2 ^ 32 then Inr (254 # le_bytes 4 n)
      else if n < 2 ^ 64 then Inr (255 # le_bytes 8 n)
      else Inl StructError)"

section \<open>The data model\<close>

text \<open>
  \<open>class Input\<close>: the fields are raw byte strings, \<open>id\<close> is a Python integer. An output
  is the dictionary \<open>{'amount': ..., 'script': ...}\<close>; \<open>class Transaction\<close> holds the
  two lists, the version bytes and the locktime.
\<close>

record Input =
  input_id :: int
  prev_hash :: bytes
  output_index :: bytes
  script_sig :: bytes
  sequence :: bytes

record Output =
  amount :: int
  script :: bytes

record Transaction =
  inputs :: "Input list"
  outputs :: "Output list"
  version :: bytes
  locktime :: int

section \<open>Decoding: \<open>deserialize_transaction\<close>\<close>

text \<open>
  The loop \<open>for i in range(0, n_inputs)\<close>: \<open>i\<close> is the next index, \<open>k\<close> the number of
  iterations left, \<open>inps\<close> the list built so far. The only check is on an empty hash
  slice; every other field is a slice, which never raises.
\<close>

fun read_inputs :: "bytes \<Rightarrow> nat \<Rightarrow> nat \<Rightarrow> nat \<Rightarrow> Input list \<Rightarrow> error + (Input list \<times> nat)" where
  "read_inputs rawtx cursor i 0 inps = Inr (inps, cursor)"
| "read_inputs rawtx cursor i (Suc k) inps =
     (let inp_hash = rev (slice rawtx cursor (cursor + 32)) in
      if length inp_hash = 0 then Inl (TransactionError HashNotFound)
      else
        let inp_index = rev (slice rawtx (cursor + 32) (cursor + 36));
            cursor1 = cursor + 36
        in case varbyteint_to_int (slice rawtx cursor1 (cursor1 + 9)) of
             Inl e \<Rightarrow> Inl e
           | Inr (scriptsig_size, sz) \<Rightarrow>
               let cursor2 = cursor1 + sz;
                   scriptsig = slice rawtx cursor2 (cursor2 + scriptsig_size);
                   cursor3 = cursor2 + scriptsig_size;
                   sequence_number = slice rawtx cursor3 (cursor3 + 4);
                   cursor4 = cursor3 + 4
               in read_inputs rawtx cursor4 (Suc i) k
                    (inps @ [\<lparr>input_id = int i, prev_hash = inp_hash, output_index = inp_index,
                                 script_sig = scriptsig, sequence = sequence_number\<rparr>]))"

text \<open>The loop \<open>for o in range(0, n_outputs)\<close>.\<close>

fun read_outputs :: "bytes \<Rightarrow> nat \<Rightarrow> nat \<Rightarrow> Output list \<Rightarrow> error + (Output list \<times> nat)" where
  "read_outputs rawtx cursor 0 outs = Inr (outs, cursor)"
| "read_outputs rawtx cursor (Suc k) outs =
     (let amt = change_base_256_10 (rev (slice rawtx cursor (cursor + 8)));
          cursor1 = cursor + 8
      in case varbyteint_to_int (slice rawtx cursor1 (cursor1 + 9)) of
           Inl e \<Rightarrow> Inl e
         | Inr (script_size, sz) \<Rightarrow>
             let cursor2 = cursor1 + sz;
                 scr = slice rawtx cursor2 (cursor2 + script_size);
                 cursor3 = cursor2 + script_size
             in read_outputs rawtx cursor3 k (outs @ [\<lparr>amount = amt, script = scr\<rparr>]))"

definition deserialize_transaction ::
  "bytes \<Rightarrow> error + (Input list \<times> Output list \<times> int \<times> bytes)" where
  "deserialize_transaction rawtx =
     (let ver = rev (slice rawtx 0 4) in
      case varbyteint_to_int (slice rawtx 4 13) of
        Inl e \<Rightarrow> Inl e
      | Inr (n_inputs, sz) \<Rightarrow>
          (case read_inputs rawtx (4 + sz) 0 n_inputs [] of
             Inl e \<Rightarrow> Inl e
           | Inr (inps, cursor) \<Rightarrow>
               if length inps \<noteq> n_inputs
               then Inl (TransactionError (InputCountMismatch n_inputs (length inps)))
               else
                 (case varbyteint_to_int (slice rawtx cursor (cursor + 9)) of
                    Inl e \<Rightarrow> Inl e
                  | Inr (n_outputs, sz') \<Rightarrow>
                      (case read_outputs rawtx (cursor + sz') n_outputs [] of
                         Inl e \<Rightarrow> Inl e
                       | Inr (outs, cursor') \<Rightarrow>
                           if outs = [] then Inl (TransactionError NoOutputs)
                           else
                             let lt = change_base_256_10 (rev (slice rawtx cursor' (cursor' + 4)))
                             in Inr (inps, outs, lt, ver)))))"

text \<open>
  \<open>Transaction.import_raw\<close> on a \<open>bytes\<close> argument (the branch that first turns a
  hexadecimal string into bytes is not modelled): decode, then call the constructor.
\<close>

definition import_raw :: "bytes \<Rightarrow> error + Transaction" where
  "import_raw rawtx =
     (case deserialize_transaction rawtx of
        Inl e \<Rightarrow> Inl e
      | Inr (inps, outs, lt, ver) \<Rightarrow>
          Inr \<lparr>inputs = inps, outputs = outs, version = ver, locktime = lt\<rparr>)"

section \<open>The collaborators\<close>

text \<open>
  The key module (\<open>bitcoinlib.keys.Key\<close>), the DER routine \<open>convert_der_sig\<close>, the hash
  function and the curve library are outside the program: the model takes them as
  parameters, each with the exceptions it may raise.
  \<^item> \<open>key_hash160 pk\<close> is \<open>binascii.unhexlify(Key(hexlify(pk), compressed=False).hash160())\<close>;
  \<^item> \<open>public_uncompressed pk\<close> is \<open>binascii.unhexlify(Key(hexlify(pk)).public_uncompressed())\<close>;
  \<^item> \<open>convert_der_sig s\<close> is the normalised signature, of some type \<open>'sig\<close>;
  \<^item> \<open>sha256d b\<close> is \<open>hashlib.sha256(hashlib.sha256(b).digest()).digest()\<close>;
  \<^item> \<open>from_string p\<close> is \<open>ecdsa.VerifyingKey.from_string(p, curve=ecdsa.SECP256k1)\<close>;
  \<^item> \<open>verify_digest vk sig h\<close> is \<open>vk.verify_digest(binascii.unhexlify(sig), h)\<close>.
\<close>

record ('sig, 'vk) collaborators =
  key_hash160 :: "bytes \<Rightarrow> error + bytes"
  public_uncompressed :: "bytes \<Rightarrow> error + bytes"
  convert_der_sig :: "bytes \<Rightarrow> error + 'sig"
  sha256d :: "bytes \<Rightarrow> bytes"
  from_string :: "bytes \<Rightarrow> error + 'vk"
  verify_digest :: "'vk \<Rightarrow> 'sig \<Rightarrow> bytes \<Rightarrow> error + bool"

section \<open>The ScriptSig parser: \<open>parse_script_sig\<close>\<close>

text \<open>
  \<open>l = s[0]\<close> and \<open>l2 = s[l+1]\<close> are index reads, which raise \<open>IndexError\<close> out of
  range; the signature and the public key are slices, which do not raise.
\<close>

definition parse_script_sig ::
  "('sig, 'vk) collaborators \<Rightarrow> bytes \<Rightarrow> error + ('sig \<times> bytes)" where
  "parse_script_sig c s =
     (case index s 0 of
        Inl e \<Rightarrow> Inl e
      | Inr l \<Rightarrow>
          (case convert_der_sig c (slice s 1 (unat l)) of
             Inl e \<Rightarrow> Inl e
           | Inr sig \<Rightarrow>
               (case index s (unat l + 1) of
                  Inl e \<Rightarrow> Inl e
                | Inr l2 \<Rightarrow> Inr (sig, slice s (unat l + 2) (unat l + unat l2 + 2)))))"

section \<open>Encoding: \<open>Transaction.raw\<close>\<close>

text \<open>
  \<open>Transaction.input_addresses(id=k)\<close> with the default \<open>return_type='hash160'\<close>, the
  only way the encoder calls it: the loop parses the script_sig of every input of the
  transaction and collects the key hashes in \<open>r\<close>; the result is \<open>r[k]\<close>.
\<close>

fun input_addresses_loop ::
  "('sig, 'vk) collaborators \<Rightarrow> Input list \<Rightarrow> bytes list \<Rightarrow> error + bytes list" where
  "input_addresses_loop c [] r = Inr r"
| "input_addresses_loop c (i # rest) r =
     (let s = script_sig i in
      case index s 0 of
        Inl e \<Rightarrow> Inl e
      | Inr l \<Rightarrow>
          (case index s (unat l + 1) of
             Inl e \<Rightarrow> Inl e
           | Inr l2 \<Rightarrow>
               (case key_hash160 c (slice s (unat l + 2) (unat l + unat l2 + 2)) of
                  Inl e \<Rightarrow> Inl e
                | Inr h \<Rightarrow> input_addresses_loop c rest (r @ [h]))))"

definition input_addresses ::
  "('sig, 'vk) collaborators \<Rightarrow> Transaction \<Rightarrow> int \<Rightarrow> error + bytes" where
  "input_addresses c T k =
     (case input_addresses_loop c (inputs T) [] of
        Inl e \<Rightarrow> Inl e
      | Inr r \<Rightarrow> index_int r k)"

text \<open>
  The loop \<open>for i in self.inputs\<close> of \<open>raw\<close>, on the bytes \<open>r\<close> written so far. The
  length of a script is written with \<open>struct.pack('B', ...)\<close>, one byte.
\<close>

fun raw_inputs ::
  "('sig, 'vk) collaborators \<Rightarrow> Transaction \<Rightarrow> int option \<Rightarrow> Input list \<Rightarrow> bytes \<Rightarrow> error + bytes" where
  "raw_inputs c T sign_id [] r = Inr r"
| "raw_inputs c T sign_id (i # rest) r =
     (let r1 = r @ rev (prev_hash i) @ rev (output_index i) in
      case (case sign_id of
              None \<Rightarrow>
                (case pack_B (int (length (script_sig i))) of
                   Inl e \<Rightarrow> Inl e
                 | Inr b \<Rightarrow> Inr (r1 @ b @ script_sig i))
            | Some k \<Rightarrow>
                if k = input_id i then
                  (case input_addresses c T (input_id i) of
                     Inl e \<Rightarrow> Inl e
                   | Inr h \<Rightarrow> Inr (r1 @ [0x19, 0x76, 0xa9, 0x14] @ h @ [0x88, 0xac]))
                else Inr (r1 @ [0x00])) of
        Inl e \<Rightarrow> Inl e
      | Inr r2 \<Rightarrow> raw_inputs c T sign_id rest (r2 @ sequence i))"

text \<open>The loop \<open>for o in self.outputs\<close>.\<close>

fun raw_outputs :: "Output list \<Rightarrow> bytes \<Rightarrow> error + bytes" where
  "raw_outputs [] r = Inr r"
| "raw_outputs (out # rest) r =
     (case pack_Q (amount out) of
        Inl e \<Rightarrow> Inl e
      | Inr a \<Rightarrow>
          (case pack_B (int (length (script out))) of
             Inl e \<Rightarrow> Inl e
           | Inr b \<Rightarrow> raw_outputs rest (r @ a @ b @ script out)))"

definition raw ::
  "('sig, 'vk) collaborators \<Rightarrow> Transaction \<Rightarrow> int option \<Rightarrow> error + bytes" where
  "raw c T sign_id =
     (case int_to_varbyteint (length (inputs T)) of
        Inl e \<Rightarrow> Inl e
      | Inr n \<Rightarrow>
          (case raw_inputs c T sign_id (inputs T) (rev (version T) @ n) of
             Inl e \<Rightarrow> Inl e
           | Inr r1 \<Rightarrow>
               (case int_to_varbyteint (length (outputs T)) of
                  Inl e \<Rightarrow> Inl e
                | Inr m \<Rightarrow>
                    (case raw_outputs (outputs T) (r1 @ m) of
                       Inl e \<Rightarrow> Inl e
                     | Inr r2 \<Rightarrow>
                         (case pack_L (locktime T) of
                            Inl e \<Rightarrow> Inl e
                          | Inr l \<Rightarrow>
                              Inr (case sign_id of
                                     None \<Rightarrow> r2 @ l
                                   | Some k \<Rightarrow> r2 @ l @ [0x01, 0x00, 0x00, 0x00]))))))"

section \<open>Verification: \<open>Transaction.verify\<close>\<close>

text \<open>
  One iteration of the loop of \<open>verify\<close>, in two parts. \<open>prepare_input\<close> is what
  stands before the \<open>try\<close>: the preimage \<open>self.raw(i.id)\<close> and its double hash, the
  parse of the script_sig, the decompression of a 33-byte key and \<open>from_string\<close> on
  \<open>pub_key[1:]\<close>; an exception of any of them leaves \<open>verify\<close>.
\<close>

definition prepare_input ::
  "('sig, 'vk) collaborators \<Rightarrow> Transaction \<Rightarrow> Input \<Rightarrow> error + ('vk \<times> 'sig \<times> bytes)" where
  "prepare_input c T i =
     (case raw c T (Some (input_id i)) of
        Inl e \<Rightarrow> Inl e
      | Inr t_to_sign \<Rightarrow>
          let hashtosign = sha256d c t_to_sign in
          (case parse_script_sig c (script_sig i) of
             Inl e \<Rightarrow> Inl e
           | Inr (signature, pub_key) \<Rightarrow>
               (case (if length pub_key = 33 then public_uncompressed c pub_key
                      else Inr pub_key) of
                  Inl e \<Rightarrow> Inl e
                | Inr pub_key' \<Rightarrow>
                    (case from_string c (drop 1 pub_key') of
                       Inl e \<Rightarrow> Inl e
                     | Inr vk \<Rightarrow> Inr (vk, signature, hashtosign)))))"

text \<open>
  \<open>check_input\<close> adds the \<open>try\<close>: only the call of \<open>verify_digest\<close> stands inside it.
  Any exception there gives \<open>False\<close> (the bare \<open>except\<close>); the value the call returns is
  not looked at. The signature is returned for the log.
\<close>

definition check_input ::
  "('sig, 'vk) collaborators \<Rightarrow> Transaction \<Rightarrow> Input \<Rightarrow> error + (bool \<times> 'sig)" where
  "check_input c T i =
     (case prepare_input c T i of
        Inl e \<Rightarrow> Inl e
      | Inr (vk, signature, hashtosign) \<Rightarrow>
          (case verify_digest c vk signature hashtosign of
             Inl e \<Rightarrow> Inr (False, signature)
           | Inr b \<Rightarrow> Inr (True, signature)))"

text \<open>
  The logger's \<open>info\<close> calls are the effect of \<open>verify\<close>: the model returns the entries
  written next to the result, also when an exception leaves the loop.
\<close>

datatype 'sig log_entry = BadSignature 'sig | SignatureVerified 'sig

fun verify_loop ::
  "('sig, 'vk) collaborators \<Rightarrow> Transaction \<Rightarrow> Input list \<Rightarrow> 'sig log_entry list
     \<Rightarrow> 'sig log_entry list \<times> (error + bool)" where
  "verify_loop c T [] log = (log, Inr True)"
| "verify_loop c T (i # rest) log =
     (case check_input c T i of
        Inl e \<Rightarrow> (log, Inl e)
      | Inr (ok, signature) \<Rightarrow>
          if ok then verify_loop c T rest (log @ [SignatureVerified signature])
          else (log @ [BadSignature signature], Inr False))"

definition verify ::
  "('sig, 'vk) collaborators \<Rightarrow> Transaction \<Rightarrow> 'sig log_entry list \<times> (error + bool)" where
  "verify c T = verify_loop c T (inputs T) []"

section \<open>The wire format, field by field\<close>

text \<open>
  The bytes of one input and of one output in the full encoding, as \<open>raw\<close> writes them
  when nothing raises: the length of a script is one byte.
\<close>

definition input_bytes :: "Input \<Rightarrow> bytes" where
  "input_bytes i =
     rev (prev_hash i) @ rev (output_index i) @ [of_nat (length (script_sig i))] @
     script_sig i @ sequence i"

definition output_bytes :: "Output \<Rightarrow> bytes" where
  "output_bytes out =
     le_bytes 8 (nat (amount out)) @ [of_nat (length (script out))] @ script out"

text \<open>
  The field values the decoder gives back unchanged: a hash of 32 bytes, an index and a
  sequence of 4, an amount that fits 64 bits, and scripts shorter than 253 bytes, whose
  one-byte length is also their VarInt. \<open>renumbered\<close> gives the inputs the ids the
  decoder assigns: their positions, counted from \<open>n\<close>.
\<close>

definition wire_input :: "Input \<Rightarrow> bool" where
  "wire_input i \<longleftrightarrow>
     length (prev_hash i) = 32 \<and> length (output_index i) = 4 \<and> length (sequence i) = 4 \<and>
     length (script_sig i) < 253"

definition wire_output :: "Output \<Rightarrow> bool" where
  "wire_output out \<longleftrightarrow> 0 \<le> amount out \<and> amount out < 2 ^ 64 \<and> length (script out) < 253"

definition renumbered :: "nat \<Rightarrow> Input list \<Rightarrow> Input list" where
  "renumbered n ins = map (\<lambda>(k, i). i\<lparr>input_id := int k\<rparr>) (enumerate n ins)"

section \<open>The signing preimage\<close>

text \<open>
  What one iteration of the loop of \<open>input_addresses\<close> computes from a script_sig: the
  hash of the public key found behind the two push lengths.
\<close>

definition recovered_key_hash :: "('sig, 'vk) collaborators \<Rightarrow> bytes \<Rightarrow> error + bytes" where
  "recovered_key_hash c s =
     (case index s 0 of
        Inl e \<Rightarrow> Inl e
      | Inr l \<Rightarrow>
          (case index s (unat l + 1) of
             Inl e \<Rightarrow> Inl e
           | Inr l2 \<Rightarrow> key_hash160 c (slice s (unat l + 2) (unat l + unat l2 + 2))))"

text \<open>
  This definition follows the words of the specification, not the code: the transaction
  whose full encoding the signing preimage of input \<open>k\<close> is said to share, with the
  script of input \<open>k\<close> replaced by the locking script
  \<open>OP_DUP OP_HASH160 <push 0x14> h OP_EQUALVERIFY OP_CHECKSIG\<close> and the script of
  every other input empty.
\<close>

definition preimage_template :: "Transaction \<Rightarrow> nat \<Rightarrow> bytes \<Rightarrow> Transaction" where
  "preimage_template T k h =
     T\<lparr>inputs := (map (\<lambda>i. i\<lparr>script_sig := []\<rparr>) (inputs T))
          [k := (inputs T ! k)\<lparr>script_sig := [0x76, 0xa9, 0x14] @ h @ [0x88, 0xac]\<rparr>]\<rparr>"

section \<open>Inputs that fit the buffer\<close>

text \<open>
  This definition follows the words of the specification, not the code: the number of
  inputs, of at most \<open>k\<close>, "that can be fully parsed before the buffer ends", starting at
  \<open>cursor\<close>. An input is fully there when its 36 bytes of hash and index, the VarInt of
  its script length, the script and the 4 bytes of the sequence all lie inside the buffer.
\<close>

fun full_inputs :: "bytes \<Rightarrow> nat \<Rightarrow> nat \<Rightarrow> nat" where
  "full_inputs rawtx cursor 0 = 0"
| "full_inputs rawtx cursor (Suc k) =
     (case varbyteint_to_int (slice rawtx (cursor + 36) (cursor + 45)) of
        Inl e \<Rightarrow> 0
      | Inr (scriptsig_size, sz) \<Rightarrow>
          if cursor + 36 + sz + scriptsig_size + 4 \<le> length rawtx
          then Suc (full_inputs rawtx (cursor + 36 + sz + scriptsig_size + 4) k)
          else 0)"

section \<open>Sample values\<close>

text \<open>
  Stand-ins for the collaborators, to run the model on concrete transactions: they only
  respect the shapes (a key of 33 or 65 bytes, a hash of 20, a curve point of 64). Every
  theorem below holds for all collaborators; the stand-ins appear in closed instances only.
\<close>

definition sample_collaborators :: "(bytes, bytes) collaborators" where
  "sample_collaborators =
     \<lparr>key_hash160 = (\<lambda>pk. if length pk = 33 \<or> length pk = 65 then Inr (take 20 (drop 1 pk))
                           else Inl KeyFailure),
      public_uncompressed = (\<lambda>pk. if length pk = 33 then Inr (0x04 # drop 1 pk @ drop 1 pk)
                                   else Inl KeyFailure),
      convert_der_sig = (\<lambda>s. if take 1 s = [0x30] then Inr (drop 2 s) else Inl DerFailure),
      sha256d = (\<lambda>b. [of_nat (length b)]),
      from_string = (\<lambda>p. if length p = 64 then Inr p else Inl KeyFailure),
      verify_digest = (\<lambda>vk sig h. if sig = [0x02, 0x01, 0x01, 0x02, 0x01, 0x01] then Inr True
                                   else Inl BadSignatureError)\<rparr>"

text \<open>
  Three script_sigs of the shape \<open>[len1][signature and sighash byte][len2][33-byte key]\<close>:
  one with the DER signature \<open>r = 1, s = 1\<close>, which the stand-ins accept, one with
  \<open>r = 1, s = 2\<close>, which they reject, and one whose signature does not start with the
  DER sequence tag, which the stand-in DER routine refuses to read.
\<close>

definition signed_script_sig :: bytes where
  "signed_script_sig =
     [0x09, 0x30, 0x06, 0x02, 0x01, 0x01, 0x02, 0x01, 0x01, 0x01, 0x21, 0x02] @ replicate 32 0xab"

definition forged_script_sig :: bytes where
  "forged_script_sig =
     [0x09, 0x30, 0x06, 0x02, 0x01, 0x01, 0x02, 0x01, 0x02, 0x01, 0x21, 0x02] @ replicate 32 0xab"

definition garbled_script_sig :: bytes where
  "garbled_script_sig =
     [0x09, 0x31, 0x06, 0x02, 0x01, 0x01, 0x02, 0x01, 0x01, 0x01, 0x21, 0x02] @ replicate 32 0xab"

definition sample_input :: "int \<Rightarrow> bytes \<Rightarrow> Input" where
  "sample_input k s =
     \<lparr>input_id = k, prev_hash = replicate 32 0x11, output_index = [0, 0, 0, 1],
      script_sig = s, sequence = [0xff, 0xff, 0xff, 0xff]\<rparr>"

definition sample_tx :: "Input list \<Rightarrow> Transaction" where
  "sample_tx ins =
     \<lparr>inputs = ins, outputs = [\<lparr>amount = 10000, script = [0x51]\<rparr>],
      version = [0, 0, 0, 1], locktime = 0\<rparr>"

definition three_inputs :: "Input list" where
  "three_inputs = [sample_input 0 signed_script_sig, sample_input 1 forged_script_sig,
                   sample_input 2 garbled_script_sig]"

definition two_inputs :: "Input list" where
  "two_inputs = [sample_input 0 signed_script_sig, sample_input 1 garbled_script_sig]"

text \<open>A transaction with one input that carries no script_sig (an unsigned input).\<close>

definition unsigned_input_tx :: Transaction where
  "unsigned_input_tx = sample_tx [sample_input 0 []]"

text \<open>
  Raw buffers: version 1, one input with an empty script, then an output count of zero;
  and version 1, no input, one output of 10000 with a two-byte script, locktime 7.
\<close>

definition zero_outputs_tx :: bytes where
  "zero_outputs_tx =
     [0x01, 0x00, 0x00, 0x00, 0x01] @ replicate 32 0x11 @ [0x01, 0x00, 0x00, 0x00] @
     [0x00, 0xff, 0xff, 0xff, 0xff, 0x00, 0x00, 0x00, 0x00, 0x00]"

definition zero_inputs_tx :: bytes where
  "zero_inputs_tx =
     [0x01, 0x00, 0x00, 0x00, 0x00, 0x01,
      0x10, 0x27, 0x00, 0x00, 0x00, 0x00, 0x00, 0x00, 0x02, 0x51, 0x52,
      0x07, 0x00, 0x00, 0x00]"

text \<open>
  Two script_sigs that end early: in the first the key push announces 33 bytes and two
  follow; in the second the signature push announces 71 bytes and eight follow.
\<close>

definition short_key_script_sig :: bytes where
  "short_key_script_sig =
     [0x09, 0x30, 0x06, 0x02, 0x01, 0x01, 0x02, 0x01, 0x01, 0x01, 0x21, 0x02, 0xab]"

definition short_signature_script_sig :: bytes where
  "short_signature_script_sig = [0x47, 0x30, 0x06, 0x02, 0x01, 0x01, 0x02, 0x01, 0x01]"

text \<open>
  Truncated buffers: one that ends after the input count; one with two bytes where the
  hash of the only input should be; one that announces two inputs and ends after the
  first; one that announces two inputs and ends inside the script of the second.
\<close>

definition partial_hash_tx :: bytes where
  "partial_hash_tx = [0x01, 0x00, 0x00, 0x00, 0x01, 0xaa, 0xbb]"

definition no_hash_tx :: bytes where
  "no_hash_tx = [0x01, 0x00, 0x00, 0x00, 0x01]"

definition missing_second_hash_tx :: bytes where
  "missing_second_hash_tx =
     [0x01, 0x00, 0x00, 0x00, 0x02] @
     replicate 32 0x11 @ [0x01, 0x00, 0x00, 0x00, 0x00, 0xff, 0xff, 0xff, 0xff]"

definition short_second_input_tx :: bytes where
  "short_second_input_tx =
     [0x01, 0x00, 0x00, 0x00, 0x02] @
     replicate 32 0x11 @ [0x01, 0x00, 0x00, 0x00, 0x00, 0xff, 0xff, 0xff, 0xff] @
     replicate 32 0x22 @ [0x00, 0x00, 0x00, 0x00, 0x05, 0xaa, 0xbb]"

text \<open>
  A transaction of two inputs with the same id; its full encoding; a transaction whose
  input has a script_sig of 253 bytes, and what \<open>raw\<close> writes for it; a transaction
  without outputs, whose encoding is \<open>zero_outputs_tx\<close>.
\<close>

definition round_trip_tx :: Transaction where
  "round_trip_tx = sample_tx [sample_input 7 signed_script_sig, sample_input 7 []]"

definition round_trip_bytes :: bytes where
  "round_trip_bytes =
     [0x01, 0x00, 0x00, 0x00, 0x02] @
     replicate 32 0x11 @ [0x01, 0x00, 0x00, 0x00, 0x2c] @ signed_script_sig @
       [0xff, 0xff, 0xff, 0xff] @
     replicate 32 0x11 @ [0x01, 0x00, 0x00, 0x00, 0x00, 0xff, 0xff, 0xff, 0xff] @
     [0x01, 0x10, 0x27, 0x00, 0x00, 0x00, 0x00, 0x00, 0x00, 0x01, 0x51] @
     [0x00, 0x00, 0x00, 0x00]"

definition long_script_tx :: Transaction where
  "long_script_tx = sample_tx [sample_input 0 (replicate 253 0x00)]"

definition long_script_bytes :: bytes where
  "long_script_bytes =
     [0x01, 0x00, 0x00, 0x00, 0x01] @
     replicate 32 0x11 @ [0x01, 0x00, 0x00, 0x00, 0xfd] @ replicate 253 0x00 @
       [0xff, 0xff, 0xff, 0xff] @
     [0x01, 0x10, 0x27, 0x00, 0x00, 0x00, 0x00, 0x00, 0x00, 0x01, 0x51] @
     [0x00, 0x00, 0x00, 0x00]"

definition no_outputs_tx :: Transaction where
  "no_outputs_tx =
     \<lparr>inputs = [sample_input 0 []], outputs = [], version = [0, 0, 0, 1], locktime = 0\<rparr>"

text \<open>
  A transaction of two signed inputs with different keys, and its signing preimage for
  the second input up to the four bytes of the hash type; a transaction whose first
  input is not signed yet.
\<close>

definition other_script_sig :: bytes where
  "other_script_sig =
     [0x09, 0x30, 0x06, 0x02, 0x01, 0x01, 0x02, 0x01, 0x01, 0x01, 0x21, 0x03] @ replicate 32 0xcd"

definition preimage_tx :: Transaction where
  "preimage_tx = sample_tx [sample_input 0 signed_script_sig, sample_input 1 other_script_sig]"

definition preimage_body :: bytes where
  "preimage_body =
     [0x01, 0x00, 0x00, 0x00, 0x02] @
     replicate 32 0x11 @ [0x01, 0x00, 0x00, 0x00, 0x00, 0xff, 0xff, 0xff, 0xff] @
     replicate 32 0x11 @ [0x01, 0x00, 0x00, 0x00, 0x19, 0x76, 0xa9, 0x14] @ replicate 20 0xcd @
       [0x88, 0xac, 0xff, 0xff, 0xff, 0xff] @
     [0x01, 0x10, 0x27, 0x00, 0x00, 0x00, 0x00, 0x00, 0x00, 0x01, 0x51] @
     [0x00, 0x00, 0x00, 0x00]"

definition half_signed_tx :: Transaction where
  "half_signed_tx = sample_tx [sample_input 0 [], sample_input 1 signed_script_sig]"

text \<open>
  Two script_sigs of the example transactions in the source file, each with its own
  signature and public key: that of the transaction built at the end of the file, and
  that of the first input of the four-input transaction in its comments. The key hashes
  are what the stand-in key module gives for the two keys.
\<close>

definition vector_script_sig :: bytes where
  "vector_script_sig =
     [0x47, 0x30, 0x44, 0x02, 0x20, 0x1f, 0x6e, 0x18, 0xf4, 0x53, 0x2e, 0x14,
      0xf3, 0x28, 0xbc, 0x82, 0x0c, 0xb7, 0x8c, 0x53, 0xc5, 0x7c, 0x91, 0xb1,
      0xda, 0x99, 0x49, 0xfe, 0xcb, 0x8c, 0xf4, 0x23, 0x18, 0xb7, 0x91, 0xfb,
      0x38, 0x02, 0x20, 0x45, 0xe7, 0x8c, 0x9e, 0x55, 0xdf, 0x1c, 0xf3, 0xdb,
      0x74, 0xbf, 0xd5, 0x2f, 0xf2, 0xad, 0xd2, 0xb5, 0x9b, 0xa6, 0x3e, 0x06,
      0x86, 0x80, 0xf0, 0x02, 0x3e, 0x6a, 0x80, 0xac, 0x9f, 0x51, 0xf4, 0x01,
      0x21, 0x02, 0x39, 0xa1, 0x8d, 0x58, 0x6c, 0x34, 0xe5, 0x12, 0x38, 0xa7,
      0xc9, 0xa2, 0x7a, 0x34, 0x2a, 0xbf, 0xb3, 0x5e, 0x3e, 0x4a, 0xa5, 0xac,
      0x65, 0x59, 0x88, 0x9d, 0xb1, 0xda, 0xb2, 0x81, 0x6e, 0x9d]"

definition block_script_sig :: bytes where
  "block_script_sig =
     [0x48, 0x30, 0x45, 0x02, 0x21, 0x00, 0xe8, 0x08, 0x41, 0xd3, 0xa2, 0x1a,
      0x12, 0xc5, 0x05, 0xe6, 0x0d, 0x28, 0x96, 0x63, 0x1e, 0xda, 0xc0, 0x6e,
      0x0e, 0x0e, 0x73, 0x59, 0x20, 0x75, 0x83, 0xcb, 0x31, 0xdd, 0x49, 0x0a,
      0x65, 0x25, 0x02, 0x20, 0x4f, 0xde, 0x02, 0x01, 0x07, 0x06, 0x09, 0x7f,
      0x11, 0xac, 0xd0, 0x54, 0x7c, 0x9d, 0xff, 0x03, 0x99, 0x35, 0x4c, 0x06,
      0x5d, 0x7e, 0x1d, 0x1d, 0x17, 0xee, 0xda, 0x03, 0x11, 0x85, 0x80, 0x4c,
      0x01, 0x21, 0x02, 0x94, 0x18, 0x39, 0x7b, 0x2a, 0xd6, 0x1b, 0x6d, 0x60,
      0x3f, 0xc8, 0x65, 0xeb, 0x4a, 0xda, 0x9c, 0x54, 0x25, 0x95, 0x2c, 0x4d,
      0xbe, 0x94, 0x8a, 0x0e, 0x0c, 0x75, 0xc3, 0x6d, 0x4e, 0x74, 0x0a]"

definition vector_key_hash :: bytes where
  "vector_key_hash =
     [0x39, 0xa1, 0x8d, 0x58, 0x6c, 0x34, 0xe5, 0x12, 0x38, 0xa7, 0xc9, 0xa2, 0x7a, 0x34,
        0x2a, 0xbf, 0xb3, 0x5e, 0x3e, 0x4a]"

definition block_key_hash :: bytes where
  "block_key_hash =
     [0x94, 0x18, 0x39, 0x7b, 0x2a, 0xd6, 0x1b, 0x6d, 0x60, 0x3f, 0xc8, 0x65, 0xeb, 0x4a,
        0xda, 0x9c, 0x54, 0x25, 0x95, 0x2c]"

text \<open>
  Transactions whose ids are not the positions: two inputs built with the default
  \<open>id=0\<close> of \<open>Input\<close>, and two inputs with the ids 1 and 0; with each, the bytes
  \<open>raw\<close> writes for \<open>sign_id\<close> 0 and 1, up to the four bytes of the hash type. And a
  transaction whose second input is not signed yet.
\<close>

definition default_ids_tx :: Transaction where
  "default_ids_tx = sample_tx [sample_input 0 vector_script_sig, sample_input 0 block_script_sig]"

definition default_ids_body :: bytes where
  "default_ids_body =
     [0x01, 0x00, 0x00, 0x00, 0x02] @
     replicate 32 0x11 @ [0x01, 0x00, 0x00, 0x00, 0x19, 0x76, 0xa9, 0x14] @ vector_key_hash @
       [0x88, 0xac, 0xff, 0xff, 0xff, 0xff] @
     replicate 32 0x11 @ [0x01, 0x00, 0x00, 0x00, 0x19, 0x76, 0xa9, 0x14] @ vector_key_hash @
       [0x88, 0xac, 0xff, 0xff, 0xff, 0xff] @
     [0x01, 0x10, 0x27, 0x00, 0x00, 0x00, 0x00, 0x00, 0x00, 0x01, 0x51] @
     [0x00, 0x00, 0x00, 0x00]"

definition swapped_ids_tx :: Transaction where
  "swapped_ids_tx = sample_tx [sample_input 1 vector_script_sig, sample_input 0 block_script_sig]"

definition swapped_ids_body :: bytes where
  "swapped_ids_body =
     [0x01, 0x00, 0x00, 0x00, 0x02] @
     replicate 32 0x11 @ [0x01, 0x00, 0x00, 0x00, 0x19, 0x76, 0xa9, 0x14] @ block_key_hash @
       [0x88, 0xac, 0xff, 0xff, 0xff, 0xff] @
     replicate 32 0x11 @ [0x01, 0x00, 0x00, 0x00, 0x00, 0xff, 0xff, 0xff, 0xff] @
     [0x01, 0x10, 0x27, 0x00, 0x00, 0x00, 0x00, 0x00, 0x00, 0x01, 0x51] @
     [0x00, 0x00, 0x00, 0x00]"

definition late_unsigned_tx :: Transaction where
  "late_unsigned_tx = sample_tx [sample_input 0 signed_script_sig, sample_input 1 []]"

section \<open>Facts about the model\<close>

lemmas sample_defs = sample_tx_def sample_input_def three_inputs_def two_inputs_def
  signed_script_sig_def
  forged_script_sig_def garbled_script_sig_def sample_collaborators_def unsigned_input_tx_def

lemmas eval_defs = check_input_def prepare_input_def raw_def int_to_varbyteint_def
  input_addresses_def index_def index_int_def parse_script_sig_def slice_def
  pack_B_def pack_Q_def pack_L_def varbyteint_to_int_def Let_def

subsection \<open>Little-endian fields\<close>

lemma length_le_bytes [simp]: "length (le_bytes w n) = w"
  by (induction w arbitrary: n) auto

lemma le_bytes_numeral [simp]:
  "le_bytes (numeral w) n = of_nat (n mod 256) # le_bytes (pred_numeral w) (n div 256)"
proof -
  have "le_bytes (Suc (pred_numeral w)) n =
      of_nat (n mod 256) # le_bytes (pred_numeral w) (n div 256)"
    by (simp only: le_bytes.simps)
  then show ?thesis
    by (simp only: numeral_eq_Suc [symmetric])
qed

subsection \<open>The decoder's loops\<close>

lemma read_inputs_length:
  "read_inputs rawtx cursor i k acc = Inr (inps, cursor') \<Longrightarrow> length inps = length acc + k"
proof (induction k arbitrary: cursor i acc)
  case 0
  then show ?case by simp
next
  case (Suc k)
  then show ?case
    by (fastforce simp: Let_def split: if_splits sum.splits prod.splits)
qed

lemma read_outputs_length:
  "read_outputs rawtx cursor k acc = Inr (outs, cursor') \<Longrightarrow> length outs = length acc + k"
proof (induction k arbitrary: cursor acc)
  case 0
  then show ?case by simp
next
  case (Suc k)
  then show ?case
    by (fastforce simp: Let_def split: sum.splits prod.splits)
qed

lemma deserialize_outputs_nonempty:
  "deserialize_transaction rawtx = Inr (inps, outs, lt, ver) \<Longrightarrow> outs \<noteq> []"
  by (auto simp: deserialize_transaction_def Let_def split: sum.splits prod.splits if_splits)

subsection \<open>The loop of \<open>verify\<close>\<close>

lemma verify_loop_True_iff:
  "snd (verify_loop c T xs log) = Inr True \<longleftrightarrow>
     (\<forall>i\<in>set xs. \<exists>sg. check_input c T i = Inr (True, sg))"
proof (induction xs arbitrary: log)
  case Nil
  then show ?case by simp
next
  case (Cons x xs)
  show ?case
  proof (cases "check_input c T x")
    case (Inl e)
    then show ?thesis by simp
  next
    case (Inr p)
    then show ?thesis
      using Cons.IH by (cases p) auto
  qed
qed

text \<open>Inputs that pass are walked over; each adds one entry to the log.\<close>

lemma verify_loop_pass_prefix:
  "\<forall>j\<in>set pre. \<exists>sg. check_input c T j = Inr (True, sg) \<Longrightarrow>
     \<exists>log'. length log' = length log + length pre \<and>
            verify_loop c T (pre @ xs) log = verify_loop c T xs log'"
proof (induction pre arbitrary: log)
  case Nil
  show ?case by (rule exI [of _ log]) simp
next
  case (Cons p pre)
  then obtain sg where sg: "check_input c T p = Inr (True, sg)" by auto
  from Cons.prems have "\<forall>j\<in>set pre. \<exists>sg. check_input c T j = Inr (True, sg)" by simp
  from Cons.IH [OF this, of "log @ [SignatureVerified sg]"]
  obtain log' where "length log' = length (log @ [SignatureVerified sg]) + length pre"
    and "verify_loop c T (pre @ xs) (log @ [SignatureVerified sg]) = verify_loop c T xs log'"
    by blast
  with sg show ?case by auto
qed

subsection \<open>The sample transactions, evaluated\<close>

lemma check_signed_input:
  "check_input sample_collaborators (sample_tx three_inputs)
     (sample_input 0 signed_script_sig) = Inr (True, [0x02, 0x01, 0x01, 0x02, 0x01, 0x01])"
  by (simp add: sample_defs eval_defs)

lemma check_forged_input:
  "check_input sample_collaborators (sample_tx three_inputs)
     (sample_input 1 forged_script_sig) = Inr (False, [0x02, 0x01, 0x01, 0x02, 0x01, 0x02])"
  by (simp add: sample_defs eval_defs)

lemma prepare_garbled_input:
  "prepare_input sample_collaborators (sample_tx three_inputs)
     (sample_input 2 garbled_script_sig) = Inl DerFailure"
  by (simp add: sample_defs eval_defs)

lemma check_only_signed_input:
  "check_input sample_collaborators (sample_tx [sample_input 0 signed_script_sig])
     (sample_input 0 signed_script_sig) = Inr (True, [0x02, 0x01, 0x01, 0x02, 0x01, 0x01])"
  by (simp add: sample_defs eval_defs)

lemma inputs_sample_tx: "inputs (sample_tx ins) = ins"
  by (simp add: sample_tx_def)

lemma prepare_forged_input:
  "prepare_input sample_collaborators (sample_tx three_inputs)
     (sample_input 1 forged_script_sig) =
     Inr (replicate 32 0xab @ replicate 32 0xab, [0x02, 0x01, 0x01, 0x02, 0x01, 0x02], [0xac])"
  by (simp add: sample_defs eval_defs)

lemma check_signed_of_two:
  "check_input sample_collaborators (sample_tx two_inputs)
     (sample_input 0 signed_script_sig) = Inr (True, [0x02, 0x01, 0x01, 0x02, 0x01, 0x01])"
  by (simp add: sample_defs eval_defs)

lemma prepare_garbled_of_two:
  "prepare_input sample_collaborators (sample_tx two_inputs)
     (sample_input 1 garbled_script_sig) = Inl DerFailure"
  by (simp add: sample_defs eval_defs)

text \<open>
  An input without script_sig makes \<open>verify\<close> raise whatever the collaborators are:
  the preimage is built first, and building it reads \<open>s[0]\<close> of every script_sig.
\<close>

lemma unsigned_input_raises: "verify c unsigned_input_tx = ([], Inl IndexError)"
  by (simp add: verify_def unsigned_input_tx_def sample_tx_def sample_input_def eval_defs)

subsection \<open>Truncated buffers\<close>

lemma varbyteint_to_int_error: "varbyteint_to_int b = Inl e \<Longrightarrow> e = FormatError"
  by (auto simp: varbyteint_to_int_def Let_def split: list.splits if_splits)

lemma varbyteint_to_int_Nil [simp]: "varbyteint_to_int [] = Inl FormatError"
  by (simp add: varbyteint_to_int_def)

lemma slice_past_end [simp]: "length s \<le> a \<Longrightarrow> slice s a b = []"
  by (simp add: slice_def)

lemma read_inputs_Suc:
  "read_inputs rawtx cursor i (Suc k) acc =
     (if slice rawtx cursor (cursor + 32) = [] then Inl (TransactionError HashNotFound)
      else case varbyteint_to_int (slice rawtx (cursor + 36) (cursor + 45)) of
             Inl e \<Rightarrow> Inl e
           | Inr (ss, sz) \<Rightarrow>
               read_inputs rawtx (cursor + 36 + sz + ss + 4) (Suc i) k
                 (acc @ [\<lparr>input_id = int i,
                          prev_hash = rev (slice rawtx cursor (cursor + 32)),
                          output_index = rev (slice rawtx (cursor + 32) (cursor + 36)),
                          script_sig = slice rawtx (cursor + 36 + sz) (cursor + 36 + sz + ss),
                          sequence = slice rawtx (cursor + 36 + sz + ss)
                            (cursor + 36 + sz + ss + 4)\<rparr>]))"
proof -
  have e: "cursor + 36 + 9 = cursor + 45" by simp
  show ?thesis
    by (simp only: read_inputs.simps Let_def e length_0_conv rev_is_Nil_conv)
qed

lemma full_inputs_numeral [simp]:
  "full_inputs rawtx cursor (numeral n) = full_inputs rawtx cursor (Suc (pred_numeral n))"
  by (simp only: numeral_eq_Suc)

lemma read_inputs_numeral [simp]:
  "read_inputs rawtx cursor i (numeral n) acc =
     read_inputs rawtx cursor i (Suc (pred_numeral n)) acc"
  by (simp only: numeral_eq_Suc)

lemma read_outputs_numeral [simp]:
  "read_outputs rawtx cursor (numeral n) acc =
     read_outputs rawtx cursor (Suc (pred_numeral n)) acc"
  by (simp only: numeral_eq_Suc)

lemma read_inputs_add:
  "read_inputs rawtx cursor i (j + m) acc =
     (case read_inputs rawtx cursor i j acc of
        Inl e \<Rightarrow> Inl e
      | Inr (inps, cursor') \<Rightarrow> read_inputs rawtx cursor' (i + j) m inps)"
proof (induction j arbitrary: cursor i acc)
  case 0
  then show ?case by simp
next
  case (Suc j)
  then show ?case
    by (simp add: read_inputs_Suc del: read_inputs.simps(2) split: sum.splits prod.splits)
qed

lemma read_inputs_no_bytes:
  "length rawtx \<le> cursor \<Longrightarrow>
     read_inputs rawtx cursor i (Suc k) acc = Inl (TransactionError HashNotFound)"
  by (simp add: read_inputs_Suc del: read_inputs.simps(2))

lemma read_inputs_partial:
  "cursor < length rawtx \<Longrightarrow> length rawtx \<le> cursor + 36 \<Longrightarrow>
     read_inputs rawtx cursor i (Suc k) acc = Inl FormatError"
  by (simp add: read_inputs_Suc slice_def del: read_inputs.simps(2))

text \<open>The buffer that ends right after the input count: no hash is found.\<close>

lemma no_hash_tx_rejected:
  "deserialize_transaction no_hash_tx = Inl (TransactionError HashNotFound)"
  by (simp add: no_hash_tx_def deserialize_transaction_def slice_def varbyteint_to_int_def
      Let_def)

lemma read_inputs_past_end:
  "length rawtx < cursor \<Longrightarrow>
     (\<exists>e. read_inputs rawtx cursor i k acc = Inl e \<and> is_format_error e) \<or>
     (\<exists>inps cursor'. read_inputs rawtx cursor i k acc = Inr (inps, cursor') \<and>
        length rawtx < cursor')"
  by (cases k) simp_all

lemma read_inputs_short:
  "full_inputs rawtx cursor k < k \<Longrightarrow>
     (\<exists>e. read_inputs rawtx cursor i k acc = Inl e \<and> is_format_error e) \<or>
     (\<exists>inps cursor'. read_inputs rawtx cursor i k acc = Inr (inps, cursor') \<and>
        length rawtx < cursor')"
proof (induction k arbitrary: cursor i acc)
  case 0
  then show ?case by simp
next
  case (Suc k)
  show ?case
  proof (cases "slice rawtx cursor (cursor + 32) = []")
    case True
    then show ?thesis by (simp add: read_inputs_Suc del: read_inputs.simps(2))
  next
    case hash: False
    show ?thesis
    proof (cases "varbyteint_to_int (slice rawtx (cursor + 36) (cursor + 45))")
      case (Inl e)
      then have "e = FormatError" by (rule varbyteint_to_int_error)
      with hash Inl show ?thesis
        by (simp add: read_inputs_Suc del: read_inputs.simps(2))
    next
      case (Inr p)
      obtain ss sz where p: "p = (ss, sz)" by (cases p)
      let ?next = "cursor + 36 + sz + ss + 4"
      let ?acc = "acc @ [\<lparr>input_id = int i,
                     prev_hash = rev (slice rawtx cursor (cursor + 32)),
                     output_index = rev (slice rawtx (cursor + 32) (cursor + 36)),
                     script_sig = slice rawtx (cursor + 36 + sz) (cursor + 36 + sz + ss),
                     sequence = slice rawtx (cursor + 36 + sz + ss)
                       (cursor + 36 + sz + ss + 4)\<rparr>]"
      have step: "read_inputs rawtx cursor i (Suc k) acc =
          read_inputs rawtx ?next (Suc i) k ?acc"
        using hash Inr p by (simp add: read_inputs_Suc del: read_inputs.simps(2))
      show ?thesis
      proof (cases "?next \<le> length rawtx")
        case True
        with Suc.prems Inr p have "full_inputs rawtx ?next k < k"
          by simp
        from Suc.IH [OF this, of "Suc i" ?acc] show ?thesis
          unfolding step .
      next
        case False
        then have "length rawtx < ?next" by simp
        from read_inputs_past_end [OF this, of "Suc i" k ?acc] show ?thesis
          unfolding step .
      qed
    qed
  qed
qed

subsection \<open>Encoding, then decoding\<close>

lemma le_to_nat_le_bytes: "n < 256 ^ w \<Longrightarrow> le_to_nat (le_bytes w n) = n"
proof (induction w arbitrary: n)
  case 0
  then show ?case by simp
next
  case (Suc w)
  from Suc.prems have "n div 256 < 256 ^ w"
    by (simp add: less_mult_imp_div_less mult.commute)
  then have "le_to_nat (le_bytes w (n div 256)) = n div 256"
    by (rule Suc.IH)
  then show ?case
    by (simp add: unat_of_nat)
qed

lemma change_base_rev: "change_base_256_10 (rev bs) = int (le_to_nat bs)"
proof -
  have "foldl (\<lambda>a b. 256 * a + unat b) 0 (rev bs) = le_to_nat bs"
    by (induction bs) simp_all
  then show ?thesis
    by (simp add: change_base_256_10_def)
qed

lemma varbyteint_to_int_small:
  "n < 253 \<Longrightarrow> varbyteint_to_int (of_nat n # xs) = Inr (n, 1)"
  by (simp add: varbyteint_to_int_def unat_of_nat)

lemma varbyteint_to_int_wide:
  assumes "unat p = 253 \<and> w = 2 \<or> unat p = 254 \<and> w = 4 \<or> unat p = 255 \<and> w = 8"
    and "n < 256 ^ w"
  shows "varbyteint_to_int (take 9 ((p # le_bytes w n) @ rest)) = Inr (n, Suc w)"
proof -
  from assms(1) have w: "w \<le> 8" by auto
  from assms(1) have p: "\<not> unat p < 253"
    and sz: "(if unat p = 253 then 2 else if unat p = 254 then 4 else 8) = w"
    by auto
  have t: "take 9 ((p # le_bytes w n) @ rest) = p # take 8 (le_bytes w n @ rest)"
    by (simp add: take_Cons')
  have "take w (take 8 (le_bytes w n @ rest)) = le_bytes w n"
    using w by (simp add: min_absorb1)
  then have v: "le_to_nat (take w (take 8 (le_bytes w n @ rest))) = n"
    using assms(2) by (simp only: le_to_nat_le_bytes)
  have l: "\<not> length (take 8 (le_bytes w n @ rest)) < w"
    using w by simp
  show ?thesis
    unfolding t varbyteint_to_int_def list.case
    by (simp only: p sz Let_def if_False l v Suc_eq_plus1)
qed

lemma varint_round_trip:
  assumes "int_to_varbyteint n = Inr v"
  shows "varbyteint_to_int (take 9 (v @ rest)) = Inr (n, length v)"
proof -
  consider "n < 253" | "253 \<le> n" "n < 2 ^ 16" | "2 ^ 16 \<le> n" "n < 2 ^ 32"
    | "2 ^ 32 \<le> n" "n < 2 ^ 64" | "2 ^ 64 \<le> n"
    by linarith
  then show ?thesis
  proof cases
    case 1
    with assms have "v = [of_nat n]" by (simp add: int_to_varbyteint_def)
    with 1 show ?thesis by (simp add: take_Cons' varbyteint_to_int_small)
  next
    case 2
    with assms have v: "v = 253 # le_bytes 2 n" by (auto simp: int_to_varbyteint_def)
    from 2 have "n < 256 ^ 2" by simp
    from varbyteint_to_int_wide [of 253 2 n rest, OF _ this] show ?thesis
      unfolding v by simp
  next
    case 3
    with assms have v: "v = 254 # le_bytes 4 n" by (auto simp: int_to_varbyteint_def)
    from 3 have "n < 256 ^ 4" by simp
    from varbyteint_to_int_wide [of 254 4 n rest, OF _ this] show ?thesis
      unfolding v by simp
  next
    case 4
    with assms have v: "v = 255 # le_bytes 8 n" by (auto simp: int_to_varbyteint_def)
    from 4 have "n < 256 ^ 8" by simp
    from varbyteint_to_int_wide [of 255 8 n rest, OF _ this] show ?thesis
      unfolding v by simp
  next
    case 5
    with assms show ?thesis by (simp add: int_to_varbyteint_def)
  qed
qed


lemma raw_inputs_full_mode:
  "\<forall>i\<in>set ins. length (script_sig i) < 256 \<Longrightarrow>
     raw_inputs c T None ins r = Inr (r @ concat (map input_bytes ins))"
proof (induction ins arbitrary: r)
  case Nil
  then show ?case by simp
next
  case (Cons i ins)
  then show ?case
    by (simp add: pack_B_def input_bytes_def)
qed

lemma raw_outputs_bytes:
  "\<forall>out\<in>set outs. 0 \<le> amount out \<and> amount out < 2 ^ 64 \<and> length (script out) < 256 \<Longrightarrow>
     raw_outputs outs r = Inr (r @ concat (map output_bytes outs))"
proof (induction outs arbitrary: r)
  case Nil
  then show ?case by simp
next
  case (Cons out outs)
  then show ?case
    by (simp add: pack_B_def pack_Q_def output_bytes_def del: le_bytes_numeral)
qed

lemma slice_append_at:
  "slice (pre @ xs) (length pre + a) (length pre + b) = slice xs a b"
  by (simp add: slice_def)

lemma slice_append_at0: "slice (pre @ xs) (length pre) (length pre + b) = take b xs"
  by (simp add: slice_def)

lemma read_inputs_one:
  assumes "length (prev_hash a) = 32" and "length (output_index a) = 4"
    and "length (sequence a) = 4" and "length (script_sig a) < 253"
  shows "read_inputs (pre @ input_bytes a @ rest) (length pre) n (Suc k) acc =
         read_inputs (pre @ input_bytes a @ rest) (length pre + length (input_bytes a)) (Suc n) k
           (acc @ [a\<lparr>input_id := int n\<rparr>])"
proof -
  let ?raw = "pre @ input_bytes a @ rest"
  let ?s = "script_sig a"
  have h: "slice ?raw (length pre) (length pre + 32) = rev (prev_hash a)"
    using assms(1) by (simp add: slice_append_at0 input_bytes_def)
  have x: "slice ?raw (length pre + 32) (length pre + 36) = rev (output_index a)"
    using assms(1,2) by (simp add: slice_append_at input_bytes_def) (simp add: slice_def)
  have "slice ?raw (length pre + 36) (length pre + 45) =
      of_nat (length ?s) # take 8 (?s @ sequence a @ rest)"
    using assms(1,2) by (simp add: slice_append_at input_bytes_def) (simp add: slice_def)
  then have v: "varbyteint_to_int (slice ?raw (length pre + 36) (length pre + 45)) =
      Inr (length ?s, 1)"
    using assms(4) by (simp add: varbyteint_to_int_small)
  have sc: "slice ?raw (length pre + 36 + 1) (length pre + 36 + 1 + length ?s) = ?s"
    using assms(1,2) slice_append_at [of pre "input_bytes a @ rest" 37 "37 + length ?s"]
    by (simp add: input_bytes_def slice_def add.assoc)
  have sq: "slice ?raw (length pre + 36 + 1 + length ?s) (length pre + 36 + 1 + length ?s + 4) =
      sequence a"
    using assms(1,2,3)
      slice_append_at [of pre "input_bytes a @ rest" "37 + length ?s" "37 + length ?s + 4"]
    by (simp add: input_bytes_def slice_def add.assoc)
  have len: "length (input_bytes a) = 36 + 1 + length ?s + 4"
    using assms(1,2,3) by (simp add: input_bytes_def)
  have nonempty: "rev (prev_hash a) \<noteq> []"
    using assms(1) by auto
  have rec: "\<lparr>input_id = int n, prev_hash = rev (rev (prev_hash a)),
        output_index = rev (rev (output_index a)), script_sig = ?s, sequence = sequence a\<rparr> =
      a\<lparr>input_id := int n\<rparr>"
    by (cases a) simp
  show ?thesis
    unfolding read_inputs_Suc h x v sum.case prod.case sc sq
    using nonempty rec by (simp only: if_False len add.assoc)
qed


lemma read_inputs_encoded:
  "\<forall>i\<in>set ins. wire_input i \<Longrightarrow>
     read_inputs (pre @ concat (map input_bytes ins) @ post) (length pre) n (length ins) acc =
       Inr (acc @ renumbered n ins, length pre + length (concat (map input_bytes ins)))"
proof (induction ins arbitrary: pre n acc)
  case Nil
  then show ?case by (simp add: renumbered_def)
next
  case (Cons a ins)
  let ?rest = "concat (map input_bytes ins) @ post"
  from Cons.prems have a: "wire_input a" and ins: "\<forall>i\<in>set ins. wire_input i"
    by simp_all
  have "read_inputs (pre @ input_bytes a @ ?rest) (length pre) n (Suc (length ins)) acc =
      read_inputs (pre @ input_bytes a @ ?rest) (length pre + length (input_bytes a)) (Suc n)
        (length ins) (acc @ [a\<lparr>input_id := int n\<rparr>])"
    using a by (intro read_inputs_one) (simp_all add: wire_input_def)
  also have "\<dots> = read_inputs ((pre @ input_bytes a) @ ?rest) (length (pre @ input_bytes a))
      (Suc n) (length ins) (acc @ [a\<lparr>input_id := int n\<rparr>])"
    by simp
  also have "\<dots> = Inr ((acc @ [a\<lparr>input_id := int n\<rparr>]) @ renumbered (Suc n) ins,
      length (pre @ input_bytes a) + length (concat (map input_bytes ins)))"
    by (rule Cons.IH [OF ins])
  finally show ?case
    by (simp add: renumbered_def)
qed

lemma read_outputs_Suc:
  "read_outputs rawtx cursor (Suc k) acc =
     (case varbyteint_to_int (slice rawtx (cursor + 8) (cursor + 17)) of
        Inl e \<Rightarrow> Inl e
      | Inr (ss, sz) \<Rightarrow>
          read_outputs rawtx (cursor + 8 + sz + ss) k
            (acc @ [\<lparr>amount = change_base_256_10 (rev (slice rawtx cursor (cursor + 8))),
                     script = slice rawtx (cursor + 8 + sz) (cursor + 8 + sz + ss)\<rparr>]))"
proof -
  have e: "cursor + 8 + 9 = cursor + 17" by simp
  show ?thesis
    by (simp only: read_outputs.simps Let_def e)
qed

lemma read_outputs_one:
  assumes "wire_output a"
  shows "read_outputs (pre @ output_bytes a @ rest) (length pre) (Suc k) acc =
         read_outputs (pre @ output_bytes a @ rest) (length pre + length (output_bytes a)) k
           (acc @ [a])"
proof -
  let ?raw = "pre @ output_bytes a @ rest"
  let ?s = "script a"
  from assms have amt: "0 \<le> amount a" "nat (amount a) < 256 ^ 8" and s: "length ?s < 253"
    by (simp_all add: wire_output_def nat_less_iff)
  have "slice ?raw (length pre) (length pre + 8) = le_bytes 8 (nat (amount a))"
    by (simp add: slice_append_at0 output_bytes_def del: le_bytes_numeral)
  then have am: "change_base_256_10 (rev (slice ?raw (length pre) (length pre + 8))) = amount a"
    using amt by (simp only: change_base_rev le_to_nat_le_bytes int_nat_eq if_True)
  have "slice ?raw (length pre + 8) (length pre + 17) = of_nat (length ?s) # take 8 (?s @ rest)"
    by (simp add: slice_append_at output_bytes_def del: le_bytes_numeral) (simp add: slice_def)
  then have v: "varbyteint_to_int (slice ?raw (length pre + 8) (length pre + 17)) =
      Inr (length ?s, 1)"
    using s by (simp add: varbyteint_to_int_small)
  have sc: "slice ?raw (length pre + 8 + 1) (length pre + 8 + 1 + length ?s) = ?s"
    using slice_append_at [of pre "output_bytes a @ rest" 9 "9 + length ?s"]
    by (simp add: output_bytes_def slice_def add.assoc del: le_bytes_numeral)
  have len: "length (output_bytes a) = 8 + 1 + length ?s"
    by (simp add: output_bytes_def del: le_bytes_numeral)
  have rec: "\<lparr>amount = amount a, script = ?s\<rparr> = a"
    by (cases a) simp
  show ?thesis
    unfolding read_outputs_Suc am v sum.case prod.case sc rec
    by (simp only: len add.assoc)
qed

lemma read_outputs_encoded:
  "\<forall>out\<in>set outs. wire_output out \<Longrightarrow>
     read_outputs (pre @ concat (map output_bytes outs) @ post) (length pre) (length outs) acc =
       Inr (acc @ outs, length pre + length (concat (map output_bytes outs)))"
proof (induction outs arbitrary: pre acc)
  case Nil
  then show ?case by simp
next
  case (Cons a outs)
  let ?rest = "concat (map output_bytes outs) @ post"
  from Cons.prems have a: "wire_output a" and outs: "\<forall>out\<in>set outs. wire_output out"
    by simp_all
  have "read_outputs (pre @ output_bytes a @ ?rest) (length pre) (Suc (length outs)) acc =
      read_outputs (pre @ output_bytes a @ ?rest) (length pre + length (output_bytes a))
        (length outs) (acc @ [a])"
    using a by (rule read_outputs_one)
  also have "\<dots> = read_outputs ((pre @ output_bytes a) @ ?rest) (length (pre @ output_bytes a))
      (length outs) (acc @ [a])"
    by simp
  also have "\<dots> = Inr ((acc @ [a]) @ outs,
      length (pre @ output_bytes a) + length (concat (map output_bytes outs)))"
    by (rule Cons.IH [OF outs])
  finally show ?case
    by simp
qed


lemma int_to_varbyteint_total: "n < 2 ^ 64 \<Longrightarrow> \<exists>v. int_to_varbyteint n = Inr v"
  by (simp add: int_to_varbyteint_def)

lemma length_renumbered [simp]: "length (renumbered n ins) = length ins"
  by (simp add: renumbered_def)

subsection \<open>The sample encodings, evaluated\<close>

lemma raw_round_trip_tx: "raw c round_trip_tx None = Inr round_trip_bytes"
  by (simp add: round_trip_tx_def round_trip_bytes_def sample_tx_def sample_input_def
      signed_script_sig_def raw_def int_to_varbyteint_def pack_B_def pack_Q_def pack_L_def)

lemma raw_long_script_tx: "raw c long_script_tx None = Inr long_script_bytes"
  by (simp add: long_script_tx_def long_script_bytes_def sample_tx_def sample_input_def
      raw_def int_to_varbyteint_def pack_B_def pack_Q_def pack_L_def)

lemma raw_no_outputs_tx: "raw c no_outputs_tx None = Inr zero_outputs_tx"
  by (simp add: no_outputs_tx_def zero_outputs_tx_def sample_input_def
      raw_def int_to_varbyteint_def pack_B_def pack_Q_def pack_L_def)

lemma le_to_nat_zeros [simp]: "le_to_nat (replicate n 0) = 0"
  by (induction n) simp_all

lemma varbyteint_to_int_zeros [simp]:
  "0 < n \<Longrightarrow> varbyteint_to_int (replicate n 0) = Inr (0, 1)"
  by (cases n) (simp_all add: varbyteint_to_int_def)

lemma import_long_script_bytes: "import_raw long_script_bytes = Inl (TransactionError NoOutputs)"
proof -
  have n: "varbyteint_to_int (slice long_script_bytes 4 13) = Inr (1, 1)"
    by (simp add: long_script_bytes_def slice_def varbyteint_to_int_def)
  have h: "slice long_script_bytes 5 (5 + 32) = replicate 32 0x11"
    by (simp add: long_script_bytes_def slice_def)
  have v: "varbyteint_to_int (slice long_script_bytes (5 + 36) (5 + 45)) = Inr (0, 3)"
    by (simp add: long_script_bytes_def slice_def varbyteint_to_int_def)
  have ins: "read_inputs long_script_bytes 5 0 (Suc 0) [] =
      Inr ([\<lparr>input_id = 0, prev_hash = replicate 32 0x11, output_index = [0, 0, 0, 1],
             script_sig = [], sequence = replicate 4 0\<rparr>], 48)"
    unfolding read_inputs_Suc h v
    by (simp add: long_script_bytes_def slice_def)
  have m: "varbyteint_to_int (slice long_script_bytes 48 (48 + 9)) = Inr (0, 1)"
    by (simp add: long_script_bytes_def slice_def)
  have "deserialize_transaction long_script_bytes = Inl (TransactionError NoOutputs)"
    unfolding deserialize_transaction_def Let_def n sum.case prod.case
    using ins m by simp
  then show ?thesis
    by (simp add: import_raw_def)
qed

subsection \<open>The signing preimage\<close>

lemma input_addresses_loop_Cons:
  "input_addresses_loop c (i # rest) r =
     (case recovered_key_hash c (script_sig i) of
        Inl e \<Rightarrow> Inl e
      | Inr h \<Rightarrow> input_addresses_loop c rest (r @ [h]))"
  by (simp add: recovered_key_hash_def Let_def split: sum.splits)

lemma input_addresses_loop_nth:
  "input_addresses_loop c ins r = Inr hs \<Longrightarrow>
     length hs = length r + length ins \<and>
     (\<forall>j<length r. hs ! j = r ! j) \<and>
     (\<forall>j<length ins. recovered_key_hash c (script_sig (ins ! j)) = Inr (hs ! (length r + j)))"
proof (induction ins arbitrary: r)
  case Nil
  then show ?case by simp
next
  case (Cons i ins)
  from Cons.prems obtain h where h: "recovered_key_hash c (script_sig i) = Inr h"
    and rest: "input_addresses_loop c ins (r @ [h]) = Inr hs"
    by (auto simp: input_addresses_loop_Cons simp del: input_addresses_loop.simps
        split: sum.splits)
  from Cons.IH [OF rest] have len: "length hs = length (r @ [h]) + length ins"
    and old: "\<forall>j<length (r @ [h]). hs ! j = (r @ [h]) ! j"
    and new: "\<forall>j<length ins.
      recovered_key_hash c (script_sig (ins ! j)) = Inr (hs ! (length (r @ [h]) + j))"
    by simp_all
  from old have here: "hs ! length r = h"
    by (metis length_append_singleton lessI nth_append_length)
  have "\<forall>j<length r. hs ! j = r ! j"
  proof (intro allI impI)
    fix j assume "j < length r"
    with old have "hs ! j = (r @ [h]) ! j" by simp
    with \<open>j < length r\<close> show "hs ! j = r ! j" by (simp add: nth_append)
  qed
  moreover have "\<forall>j<length (i # ins).
      recovered_key_hash c (script_sig ((i # ins) ! j)) = Inr (hs ! (length r + j))"
  proof (intro allI impI)
    fix j assume j: "j < length (i # ins)"
    show "recovered_key_hash c (script_sig ((i # ins) ! j)) = Inr (hs ! (length r + j))"
    proof (cases j)
      case 0
      with h here show ?thesis by simp
    next
      case (Suc j')
      with j new show ?thesis by simp
    qed
  qed
  ultimately show ?case
    using len by simp
qed

lemma input_addresses_at:
  assumes "input_addresses_loop c (inputs T) [] = Inr hs" and "k < length (inputs T)"
  shows "input_addresses c T (int k) = Inr (hs ! k)"
proof -
  from input_addresses_loop_nth [OF assms(1)] have "length hs = length (inputs T)"
    by simp
  with assms show ?thesis
    by (simp add: input_addresses_def index_int_def)
qed

lemma raw_inputs_sign_mode:
  assumes "input_addresses c T (int k) = Inr h" and "length h = 20"
  shows "raw_inputs c T (Some (int k)) ins r =
         raw_inputs c T None
           (map (\<lambda>i. i\<lparr>script_sig :=
              (if input_id i = int k then [0x76, 0xa9, 0x14] @ h @ [0x88, 0xac] else [])\<rparr>) ins) r"
proof (induction ins arbitrary: r)
  case Nil
  then show ?case by simp
next
  case (Cons i ins)
  show ?case
  proof (cases "input_id i = int k")
    case True
    with assms Cons.IH show ?thesis
      by (simp add: pack_B_def)
  next
    case False
    with Cons.IH show ?thesis
      by (simp add: pack_B_def)
  qed
qed

lemma raw_inputs_None_indep:
  "raw_inputs c T None ins r = raw_inputs c' T' None ins r"
  by (induction ins arbitrary: r) (simp_all split: sum.splits)

lemma template_by_position:
  assumes "\<forall>j<length ins. input_id (ins ! j) = int j" and "k < length ins"
  shows "map (\<lambda>i. i\<lparr>script_sig := (if input_id i = int k then s else [])\<rparr>) ins =
         (map (\<lambda>i. i\<lparr>script_sig := []\<rparr>) ins)[k := (ins ! k)\<lparr>script_sig := s\<rparr>]"
proof (rule nth_equalityI)
  show "length (map (\<lambda>i. i\<lparr>script_sig := (if input_id i = int k then s else [])\<rparr>) ins) =
      length ((map (\<lambda>i. i\<lparr>script_sig := []\<rparr>) ins)[k := (ins ! k)\<lparr>script_sig := s\<rparr>])"
    by simp
next
  fix j
  assume "j < length (map (\<lambda>i. i\<lparr>script_sig := (if input_id i = int k then s else [])\<rparr>) ins)"
  then have j: "j < length ins" by simp
  with assms(1) have "input_id (ins ! j) = int j" by simp
  with j assms(2)
  show "map (\<lambda>i. i\<lparr>script_sig := (if input_id i = int k then s else [])\<rparr>) ins ! j =
      (map (\<lambda>i. i\<lparr>script_sig := []\<rparr>) ins)[k := (ins ! k)\<lparr>script_sig := s\<rparr>] ! j"
    by (cases "j = k") simp_all
qed

text \<open>The unsigned first input makes the encoding for the second raise, whatever the
  collaborators are.\<close>

lemma half_signed_raises: "raw c half_signed_tx (Some 1) = Inl IndexError"
  by (simp add: half_signed_tx_def sample_tx_def sample_input_def raw_def
      int_to_varbyteint_def input_addresses_def index_def)

lemma preimage_tx_hashes:
  "input_addresses_loop sample_collaborators (inputs preimage_tx) [] =
     Inr [replicate 20 0xab, replicate 20 0xcd]"
  by (simp add: preimage_tx_def sample_tx_def sample_input_def signed_script_sig_def
      other_script_sig_def sample_collaborators_def index_def slice_def Let_def)

lemma raw_preimage_template:
  "raw sample_collaborators (preimage_template preimage_tx (Suc 0) (replicate 20 0xcd)) None =
     Inr preimage_body"
  by (simp add: preimage_template_def preimage_tx_def sample_tx_def sample_input_def
      preimage_body_def raw_def int_to_varbyteint_def pack_B_def pack_Q_def pack_L_def)

lemma input_addresses_loop_raises:
  "\<exists>i\<in>set ins. \<exists>e. recovered_key_hash c (script_sig i) = Inl e \<Longrightarrow>
     \<exists>e. input_addresses_loop c ins r = Inl e"
proof (induction ins arbitrary: r)
  case Nil
  then show ?case by simp
next
  case (Cons i ins)
  show ?case
  proof (cases "recovered_key_hash c (script_sig i)")
    case (Inl e)
    then show ?thesis
      by (simp add: input_addresses_loop_Cons del: input_addresses_loop.simps)
  next
    case (Inr h)
    with Cons.prems have "\<exists>i\<in>set ins. \<exists>e. recovered_key_hash c (script_sig i) = Inl e"
      by auto
    from Cons.IH [OF this, of "r @ [h]"] Inr show ?thesis
      by (simp add: input_addresses_loop_Cons del: input_addresses_loop.simps)
  qed
qed

lemma raw_inputs_sign_raises:
  assumes "input_addresses c T (int k) = Inl e"
  shows "\<exists>i\<in>set ins. input_id i = int k \<Longrightarrow>
           raw_inputs c T (Some (int k)) ins r = Inl e"
proof (induction ins arbitrary: r)
  case Nil
  then show ?case by simp
next
  case (Cons i ins)
  show ?case
  proof (cases "input_id i = int k")
    case True
    with assms show ?thesis by simp
  next
    case False
    with Cons.prems have "\<exists>i\<in>set ins. input_id i = int k" by auto
    from Cons.IH [OF this] False show ?thesis by simp
  qed
qed

lemma vector_key_hash_recovered:
  "recovered_key_hash sample_collaborators vector_script_sig = Inr vector_key_hash"
  by (simp add: recovered_key_hash_def vector_script_sig_def vector_key_hash_def
      sample_collaborators_def index_def slice_def)

lemma block_key_hash_recovered:
  "recovered_key_hash sample_collaborators block_script_sig = Inr block_key_hash"
  by (simp add: recovered_key_hash_def block_script_sig_def block_key_hash_def
      sample_collaborators_def index_def slice_def)

lemma raw_default_ids_tx:
  "raw sample_collaborators default_ids_tx (Some 0) =
     Inr (default_ids_body @ [0x01, 0x00, 0x00, 0x00])"
  by (simp add: default_ids_tx_def default_ids_body_def sample_tx_def sample_input_def
      vector_script_sig_def block_script_sig_def vector_key_hash_def
      sample_collaborators_def eval_defs)

lemma raw_late_unsigned_tx:
  "raw sample_collaborators late_unsigned_tx (Some 0) = Inl IndexError"
  by (simp add: late_unsigned_tx_def sample_defs eval_defs)


lemma raw_swapped_ids_tx:
  "raw sample_collaborators swapped_ids_tx (Some 1) =
     Inr (swapped_ids_body @ [0x01, 0x00, 0x00, 0x00])"
  by (simp add: swapped_ids_tx_def swapped_ids_body_def sample_tx_def sample_input_def
      vector_script_sig_def block_script_sig_def block_key_hash_def
      sample_collaborators_def eval_defs)

lemma key_hashes_differ: "vector_key_hash \<noteq> block_key_hash"
  by (simp add: vector_key_hash_def block_key_hash_def)

lemma input_addresses_loop_succeeds:
  "\<forall>i\<in>set ins. \<exists>h. recovered_key_hash c (script_sig i) = Inr h \<Longrightarrow>
     \<exists>hs. input_addresses_loop c ins r = Inr hs"
proof (induction ins arbitrary: r)
  case Nil
  then show ?case by simp
next
  case (Cons i ins)
  then obtain h where h: "recovered_key_hash c (script_sig i) = Inr h" by auto
  from Cons.prems have "\<forall>i\<in>set ins. \<exists>h. recovered_key_hash c (script_sig i) = Inr h"
    by simp
  from Cons.IH [OF this, of "r @ [h]"] h show ?case
    by (simp add: input_addresses_loop_Cons del: input_addresses_loop.simps)
qed

lemma signed_key_hash_recovered:
  "recovered_key_hash sample_collaborators signed_script_sig = Inr (replicate 20 0xab)"
  by (simp add: recovered_key_hash_def signed_script_sig_def sample_collaborators_def
      index_def slice_def)

lemma other_key_hash_recovered:
  "recovered_key_hash sample_collaborators other_script_sig = Inr (replicate 20 0xcd)"
  by (simp add: recovered_key_hash_def other_script_sig_def sample_collaborators_def
      index_def slice_def)

section \<open>The claims\<close>

text \<open>
  C1, as the code has it. For a transaction with a version of 4 bytes, inputs and outputs
  of wire-sized fields with scripts shorter than 253 bytes (fewer than \<open>2^64\<close> of each,
  the domain of the VarInt encoder), a locktime that fits 32 bits and at least one output,
  the full encoding exists and decodes to the same transaction, the ids of the inputs
  replaced by their positions.
\<close>

theorem full_mode_round_trip:
  assumes ver: "length (version T) = 4"
    and ins: "\<forall>i\<in>set (inputs T). wire_input i"
    and outs: "\<forall>out\<in>set (outputs T). wire_output out"
    and lt: "0 \<le> locktime T" "locktime T < 2 ^ 32"
    and nonempty: "outputs T \<noteq> []"
    and counts: "length (inputs T) < 2 ^ 64" "length (outputs T) < 2 ^ 64"
  shows "\<exists>r. raw c T None = Inr r \<and>
             import_raw r = Inr (T\<lparr>inputs := renumbered 0 (inputs T)\<rparr>)"
proof -
  from counts obtain vi vo where vi: "int_to_varbyteint (length (inputs T)) = Inr vi"
    and vo: "int_to_varbyteint (length (outputs T)) = Inr vo"
    using int_to_varbyteint_total by blast
  define IB where "IB = concat (map input_bytes (inputs T))"
  define OB where "OB = concat (map output_bytes (outputs T))"
  define LB where "LB = le_bytes 4 (nat (locktime T))"
  define pre0 where "pre0 = rev (version T) @ vi"
  define r where "r = pre0 @ IB @ vo @ OB @ LB"
  have ins256: "\<forall>i\<in>set (inputs T). length (script_sig i) < 256"
    using ins by (auto simp: wire_input_def)
  have outs256: "\<forall>out\<in>set (outputs T).
      0 \<le> amount out \<and> amount out < 2 ^ 64 \<and> length (script out) < 256"
    using outs by (auto simp: wire_output_def)
  have enc: "raw c T None = Inr r"
    using lt
    by (simp add: raw_def vi vo raw_inputs_full_mode [OF ins256] raw_outputs_bytes [OF outs256]
        pack_L_def r_def pre0_def IB_def OB_def LB_def del: le_bytes_numeral)
  have len0: "length pre0 = 4 + length vi"
    using ver by (simp add: pre0_def)
  have "slice r 0 4 = rev (version T)"
    using ver by (simp add: r_def pre0_def slice_def)
  then have d_ver: "rev (slice r 0 4) = version T"
    by simp
  have "slice (rev (version T) @ vi @ IB @ vo @ OB @ LB) (length (rev (version T)))
      (length (rev (version T)) + 9) = take 9 (vi @ IB @ vo @ OB @ LB)"
    by (rule slice_append_at0)
  then have "slice r 4 13 = take 9 (vi @ IB @ vo @ OB @ LB)"
    using ver by (simp add: r_def pre0_def)
  then have d_n: "varbyteint_to_int (slice r 4 13) = Inr (length (inputs T), length vi)"
    by (simp only: varint_round_trip [OF vi])
  have "read_inputs (pre0 @ IB @ vo @ OB @ LB) (length pre0) 0 (length (inputs T)) [] =
      Inr ([] @ renumbered 0 (inputs T), length pre0 + length IB)"
    unfolding IB_def by (rule read_inputs_encoded [OF ins])
  then have d_ins: "read_inputs r (4 + length vi) 0 (length (inputs T)) [] =
      Inr (renumbered 0 (inputs T), length (pre0 @ IB))"
    by (simp add: r_def len0)
  have r1: "r = (pre0 @ IB) @ vo @ OB @ LB"
    by (simp add: r_def)
  have "slice r (length (pre0 @ IB)) (length (pre0 @ IB) + 9) = take 9 (vo @ OB @ LB)"
    unfolding r1 by (rule slice_append_at0)
  then have d_m: "varbyteint_to_int (slice r (length (pre0 @ IB)) (length (pre0 @ IB) + 9)) =
      Inr (length (outputs T), length vo)"
    by (simp only: varint_round_trip [OF vo])
  have r2: "r = (pre0 @ IB @ vo) @ OB @ LB"
    by (simp add: r_def)
  have "read_outputs ((pre0 @ IB @ vo) @ OB @ LB) (length (pre0 @ IB @ vo)) (length (outputs T)) [] =
      Inr ([] @ outputs T, length (pre0 @ IB @ vo) + length OB)"
    unfolding OB_def by (rule read_outputs_encoded [OF outs])
  then have d_outs: "read_outputs r (length (pre0 @ IB) + length vo) (length (outputs T)) [] =
      Inr (outputs T, length (pre0 @ IB @ vo @ OB))"
    unfolding r2 [symmetric] by (simp add: add.assoc)
  have r3: "r = (pre0 @ IB @ vo @ OB) @ LB"
    by (simp add: r_def)
  have "slice r (length (pre0 @ IB @ vo @ OB)) (length (pre0 @ IB @ vo @ OB) + 4) = take 4 LB"
    unfolding r3 by (rule slice_append_at0)
  then have "slice r (length (pre0 @ IB @ vo @ OB)) (length (pre0 @ IB @ vo @ OB) + 4) = LB"
    by (simp add: LB_def del: le_bytes_numeral)
  moreover have "nat (locktime T) < 256 ^ 4"
    using lt by (simp add: nat_less_iff)
  ultimately have d_lt: "change_base_256_10
      (rev (slice r (length (pre0 @ IB @ vo @ OB)) (length (pre0 @ IB @ vo @ OB) + 4))) = locktime T"
    using lt(1) by (simp only: change_base_rev LB_def le_to_nat_le_bytes int_nat_eq if_True)
  have "deserialize_transaction r =
      Inr (renumbered 0 (inputs T), outputs T, locktime T, version T)"
    unfolding deserialize_transaction_def Let_def d_n sum.case prod.case d_ins
      length_renumbered d_m d_outs d_lt d_ver
    using nonempty by simp
  then have "import_raw r = Inr (T\<lparr>inputs := renumbered 0 (inputs T)\<rparr>)"
    by (simp add: import_raw_def)
  with enc show ?thesis by blast
qed

theorem full_mode_round_trip_witness:
  "length (version round_trip_tx) = 4 \<and>
   wire_input (sample_input 7 signed_script_sig) \<and> wire_input (sample_input 7 []) \<and>
   wire_output \<lparr>amount = 10000, script = [0x51]\<rparr> \<and>
   0 \<le> locktime round_trip_tx \<and> locktime round_trip_tx < 2 ^ 32 \<and>
   outputs round_trip_tx \<noteq> [] \<and>
   raw sample_collaborators round_trip_tx None = Inr round_trip_bytes \<and>
   import_raw round_trip_bytes =
     Inr (sample_tx [sample_input 0 signed_script_sig, sample_input 1 []])"
proof -
  have w: "wire_input (sample_input 7 signed_script_sig)" "wire_input (sample_input 7 [])"
    "wire_output \<lparr>amount = 10000, script = [0x51]\<rparr>"
    by (simp_all add: wire_input_def wire_output_def sample_input_def signed_script_sig_def)
  have f: "length (version round_trip_tx) = 4" "0 \<le> locktime round_trip_tx"
    "locktime round_trip_tx < 2 ^ 32" "outputs round_trip_tx \<noteq> []"
    "length (inputs round_trip_tx) < 2 ^ 64" "length (outputs round_trip_tx) < 2 ^ 64"
    by (simp_all add: round_trip_tx_def sample_tx_def)
  have i: "\<forall>i\<in>set (inputs round_trip_tx). wire_input i"
    using w by (simp add: round_trip_tx_def sample_tx_def)
  have o: "\<forall>out\<in>set (outputs round_trip_tx). wire_output out"
    using w by (simp add: round_trip_tx_def sample_tx_def)
  from full_mode_round_trip [OF f(1) i o f(2,3,4,5,6), of sample_collaborators]
  obtain r where r: "raw sample_collaborators round_trip_tx None = Inr r"
    and d: "import_raw r =
      Inr (round_trip_tx\<lparr>inputs := renumbered 0 (inputs round_trip_tx)\<rparr>)"
    by blast
  from r have "r = round_trip_bytes"
    by (simp add: raw_round_trip_tx)
  moreover have "round_trip_tx\<lparr>inputs := renumbered 0 (inputs round_trip_tx)\<rparr> =
      sample_tx [sample_input 0 signed_script_sig, sample_input 1 []]"
    by (simp add: round_trip_tx_def sample_tx_def sample_input_def renumbered_def)
  ultimately have "import_raw round_trip_bytes =
      Inr (sample_tx [sample_input 0 signed_script_sig, sample_input 1 []])"
    using d by simp
  with w f show ?thesis
    by (simp add: raw_round_trip_tx)
qed

text \<open>
  C1 as stated fails at two transactions of valid field values. The first has no output:
  its encoding is rejected by the decoder's check for outputs. The second has a
  script_sig of 253 bytes: its length is written as the single byte \<open>0xfd\<close>, which the
  decoder reads as the prefix of a 16-bit length, and the decoding ends in an error.
\<close>

theorem full_mode_round_trip_counterexample:
  "raw sample_collaborators no_outputs_tx None = Inr zero_outputs_tx \<and>
   import_raw zero_outputs_tx = Inl (TransactionError NoOutputs) \<and>
   raw sample_collaborators long_script_tx None = Inr long_script_bytes \<and>
   import_raw long_script_bytes = Inl (TransactionError NoOutputs)"
proof -
  have "import_raw zero_outputs_tx = Inl (TransactionError NoOutputs)"
    by (simp add: zero_outputs_tx_def import_raw_def deserialize_transaction_def slice_def
        varbyteint_to_int_def Let_def)
  then show ?thesis
    by (simp add: raw_no_outputs_tx raw_long_script_tx import_long_script_bytes)
qed

text \<open>
  C2, as the code has it. Let the ids of the inputs be their positions and let \<open>k\<close> be
  one of them. Where the script_sig of every input of the transaction parses to a public
  key that the key module hashes, the hash for input \<open>k\<close> being of 20 bytes, the
  encoding for \<open>sign_id = k\<close> is the full encoding of the transaction in which the script
  of input \<open>k\<close> is \<open>76 a9 14 <hash> 88 ac\<close> (25 bytes, so that its length byte is
  \<open>0x19\<close>) and every other script is empty (length byte \<open>0x00\<close>), followed by
  \<open>01 00 00 00\<close>; and the hash is that of the key in the script_sig of input \<open>k\<close>
  itself. Where the script_sig of some input, whichever it is, does not parse to such a
  key, the encoding for \<open>sign_id = k\<close> raises.
\<close>

theorem signing_preimage:
  assumes ids: "\<forall>j<length (inputs T). input_id (inputs T ! j) = int j"
    and k: "k < length (inputs T)"
  shows "((\<forall>i\<in>set (inputs T). \<exists>h'. recovered_key_hash c (script_sig i) = Inr h') \<and>
          recovered_key_hash c (script_sig (inputs T ! k)) = Inr h \<and> length h = 20
            \<longrightarrow> raw c T (Some (int k)) =
                  (case raw c (preimage_template T k h) None of
                     Inl e \<Rightarrow> Inl e
                   | Inr r \<Rightarrow> Inr (r @ [0x01, 0x00, 0x00, 0x00]))) \<and>
         ((\<exists>i\<in>set (inputs T). \<exists>e. recovered_key_hash c (script_sig i) = Inl e)
            \<longrightarrow> (\<exists>e. raw c T (Some (int k)) = Inl e))"
proof (rule conjI)
  show "(\<forall>i\<in>set (inputs T). \<exists>h'. recovered_key_hash c (script_sig i) = Inr h') \<and>
      recovered_key_hash c (script_sig (inputs T ! k)) = Inr h \<and> length h = 20
      \<longrightarrow> raw c T (Some (int k)) =
            (case raw c (preimage_template T k h) None of
               Inl e \<Rightarrow> Inl e
             | Inr r \<Rightarrow> Inr (r @ [0x01, 0x00, 0x00, 0x00]))"
  proof (rule impI)
    assume a: "(\<forall>i\<in>set (inputs T). \<exists>h'. recovered_key_hash c (script_sig i) = Inr h') \<and>
      recovered_key_hash c (script_sig (inputs T ! k)) = Inr h \<and> length h = 20"
    then obtain hs where hs: "input_addresses_loop c (inputs T) [] = Inr hs"
      using input_addresses_loop_succeeds [of "inputs T" c "[]"] by blast
    from input_addresses_loop_nth [OF hs] k
    have "recovered_key_hash c (script_sig (inputs T ! k)) = Inr (hs ! k)"
      by simp
    with a have hk: "hs ! k = h" by simp
    with a have len: "length (hs ! k) = 20" by simp
    let ?s = "[0x76, 0xa9, 0x14] @ hs ! k @ [0x88, 0xac]"
    let ?T' = "preimage_template T k (hs ! k)"
    have ins': "inputs ?T' =
        map (\<lambda>i. i\<lparr>script_sig := (if input_id i = int k then ?s else [])\<rparr>) (inputs T)"
      using template_by_position [OF ids k, of ?s] by (simp add: preimage_template_def)
    have same: "version ?T' = version T" "outputs ?T' = outputs T" "locktime ?T' = locktime T"
      "length (inputs ?T') = length (inputs T)"
      by (simp_all add: preimage_template_def)
    have loop: "raw_inputs c T (Some (int k)) (inputs T) r =
        raw_inputs c ?T' None (inputs ?T') r" for r
      unfolding ins'
      using raw_inputs_sign_mode [OF input_addresses_at [OF hs k] len, of "inputs T" r]
        raw_inputs_None_indep [of c T _ r c ?T']
      by simp
    have "raw c T (Some (int k)) =
        (case raw c ?T' None of Inl e \<Rightarrow> Inl e | Inr r \<Rightarrow> Inr (r @ [0x01, 0x00, 0x00, 0x00]))"
      unfolding raw_def same loop
      by (simp split: sum.splits)
    then show "raw c T (Some (int k)) =
            (case raw c (preimage_template T k h) None of
               Inl e \<Rightarrow> Inl e
             | Inr r \<Rightarrow> Inr (r @ [0x01, 0x00, 0x00, 0x00]))"
      unfolding hk .
  qed
next
  show "(\<exists>i\<in>set (inputs T). \<exists>e. recovered_key_hash c (script_sig i) = Inl e)
      \<longrightarrow> (\<exists>e. raw c T (Some (int k)) = Inl e)"
  proof (rule impI)
    assume "\<exists>i\<in>set (inputs T). \<exists>e. recovered_key_hash c (script_sig i) = Inl e"
    from input_addresses_loop_raises [OF this, of "[]"]
    obtain e where "input_addresses_loop c (inputs T) [] = Inl e" by blast
    then have a: "input_addresses c T (int k) = Inl e"
      by (simp add: input_addresses_def)
    from ids k have "\<exists>i\<in>set (inputs T). input_id i = int k"
      using nth_mem by blast
    from raw_inputs_sign_raises [OF a this]
    have "raw_inputs c T (Some (int k)) (inputs T) r = Inl e" for r .
    then show "\<exists>e. raw c T (Some (int k)) = Inl e"
      by (simp add: raw_def split: sum.splits)
  qed
qed

theorem signing_preimage_witness:
  "input_id (inputs preimage_tx ! 0) = 0 \<and> input_id (inputs preimage_tx ! 1) = 1 \<and>
   length (inputs preimage_tx) = 2 \<and>
   recovered_key_hash sample_collaborators (script_sig (inputs preimage_tx ! 0)) =
     Inr (replicate 20 0xab) \<and>
   recovered_key_hash sample_collaborators (script_sig (inputs preimage_tx ! 1)) =
     Inr (replicate 20 0xcd) \<and>
   raw sample_collaborators preimage_tx (Some 1) =
     Inr (preimage_body @ [0x01, 0x00, 0x00, 0x00]) \<and>
   input_id (inputs late_unsigned_tx ! 0) = 0 \<and> input_id (inputs late_unsigned_tx ! 1) = 1 \<and>
   length (inputs late_unsigned_tx) = 2 \<and>
   recovered_key_hash sample_collaborators (script_sig (inputs late_unsigned_tx ! 1)) =
     Inl IndexError \<and>
   raw sample_collaborators late_unsigned_tx (Some 0) = Inl IndexError"
proof -
  let ?c = sample_collaborators
  have n: "inputs preimage_tx = [sample_input 0 signed_script_sig, sample_input 1 other_script_sig]"
    by (simp add: preimage_tx_def sample_tx_def)
  have i0: "input_id (inputs preimage_tx ! 0) = 0" and i1: "input_id (inputs preimage_tx ! 1) = 1"
    by (simp_all add: n sample_input_def)
  have ids: "\<forall>j<length (inputs preimage_tx). input_id (inputs preimage_tx ! j) = int j"
  proof (intro allI impI)
    fix j assume "j < length (inputs preimage_tx)"
    then have "j = 0 \<or> j = 1" by (auto simp: n)
    with i0 i1 show "input_id (inputs preimage_tx ! j) = int j" by auto
  qed
  have k: "1 < length (inputs preimage_tx)" by (simp add: n)
  have l2: "length (inputs preimage_tx) = 2" by (simp add: n)
  have h0: "recovered_key_hash ?c (script_sig (inputs preimage_tx ! 0)) = Inr (replicate 20 0xab)"
    and h1: "recovered_key_hash ?c (script_sig (inputs preimage_tx ! 1)) = Inr (replicate 20 0xcd)"
    by (simp_all add: n sample_input_def signed_key_hash_recovered other_key_hash_recovered)
  have every: "\<forall>i\<in>set (inputs preimage_tx). \<exists>h'. recovered_key_hash ?c (script_sig i) = Inr h'"
    by (simp add: n sample_input_def signed_key_hash_recovered other_key_hash_recovered)
  have len: "length (replicate 20 (0xcd :: byte)) = 20" by simp
  from signing_preimage [OF ids k, THEN conjunct1, of ?c "replicate 20 0xcd"] every h1 len
  have "raw ?c preimage_tx (Some (int 1)) =
      (case raw ?c (preimage_template preimage_tx 1 (replicate 20 0xcd)) None of
         Inl e \<Rightarrow> Inl e
       | Inr r \<Rightarrow> Inr (r @ [0x01, 0x00, 0x00, 0x00]))"
    by blast
  then have r: "raw ?c preimage_tx (Some 1) = Inr (preimage_body @ [0x01, 0x00, 0x00, 0x00])"
    by (simp add: raw_preimage_template)
  have m: "inputs late_unsigned_tx = [sample_input 0 signed_script_sig, sample_input 1 []]"
    by (simp add: late_unsigned_tx_def sample_tx_def)
  have j0: "input_id (inputs late_unsigned_tx ! 0) = 0"
    and j1: "input_id (inputs late_unsigned_tx ! 1) = 1"
    by (simp_all add: m sample_input_def)
  have ids': "\<forall>j<length (inputs late_unsigned_tx). input_id (inputs late_unsigned_tx ! j) = int j"
  proof (intro allI impI)
    fix j assume "j < length (inputs late_unsigned_tx)"
    then have "j = 0 \<or> j = 1" by (auto simp: m)
    with j0 j1 show "input_id (inputs late_unsigned_tx ! j) = int j" by auto
  qed
  have k': "0 < length (inputs late_unsigned_tx)" by (simp add: m)
  have m2: "length (inputs late_unsigned_tx) = 2" by (simp add: m)
  have bad: "recovered_key_hash ?c (script_sig (inputs late_unsigned_tx ! 1)) = Inl IndexError"
    by (simp add: m recovered_key_hash_def sample_input_def index_def)
  have "inputs late_unsigned_tx ! 1 \<in> set (inputs late_unsigned_tx)"
    by (simp add: m)
  with bad have "\<exists>i\<in>set (inputs late_unsigned_tx).
      \<exists>e. recovered_key_hash ?c (script_sig i) = Inl e"
    by blast
  with signing_preimage [OF ids' k', THEN conjunct2, of ?c]
  have "\<exists>e. raw ?c late_unsigned_tx (Some (int 0)) = Inl e"
    by blast
  then have x: "raw ?c late_unsigned_tx (Some 0) = Inl IndexError"
    by (simp add: raw_late_unsigned_tx)
  from i0 i1 l2 h0 h1 r j0 j1 m2 bad x show ?thesis
    by blast
qed

text \<open>
  C2 as stated fails in three ways. An unsigned first input makes the encoding for the
  second input, whose script_sig is complete, raise \<open>IndexError\<close>:
  \<open>input_addresses\<close> parses the script_sig of every input before it returns the hash of
  one. And \<open>raw\<close> finds the input by its id, while \<open>input_addresses\<close> returns the
  entry at the position \<open>id\<close>: with the ids 1 and 0, the input with id 1 gets the hash
  of the other input's key; with the default id 0 on both inputs, both are given the
  script, the second with the hash of the first input's key.
\<close>

theorem signing_preimage_counterexample:
  "raw sample_collaborators half_signed_tx (Some 1) = Inl IndexError \<and>
   input_id (inputs swapped_ids_tx ! 0) = 1 \<and>
   recovered_key_hash sample_collaborators (script_sig (inputs swapped_ids_tx ! 0)) =
     Inr vector_key_hash \<and>
   raw sample_collaborators swapped_ids_tx (Some 1) =
     Inr (swapped_ids_body @ [0x01, 0x00, 0x00, 0x00]) \<and>
   input_id (inputs default_ids_tx ! 1) = 0 \<and>
   recovered_key_hash sample_collaborators (script_sig (inputs default_ids_tx ! 1)) =
     Inr block_key_hash \<and>
   raw sample_collaborators default_ids_tx (Some 0) =
     Inr (default_ids_body @ [0x01, 0x00, 0x00, 0x00]) \<and>
   vector_key_hash \<noteq> block_key_hash"
proof -
  have "inputs swapped_ids_tx ! 0 = sample_input 1 vector_script_sig"
    and "inputs default_ids_tx ! 1 = sample_input 0 block_script_sig"
    by (simp_all add: swapped_ids_tx_def default_ids_tx_def sample_tx_def)
  then show ?thesis
    by (simp add: half_signed_raises raw_swapped_ids_tx raw_default_ids_tx
        vector_key_hash_recovered block_key_hash_recovered key_hashes_differ sample_input_def)
qed

text \<open>
  C3, as the code has it. The \<open>try\<close> of \<open>verify\<close> holds the call of \<open>verify_digest\<close>
  only. For the first input that does not pass: an exception of that call, whatever it
  is, gives the result false; an exception raised before it (building the preimage,
  parsing the script_sig, decompressing or loading the public key) leaves \<open>verify\<close> as it
  is, and no result is returned.
\<close>

theorem verify_exception_policy:
  assumes "inputs T = pre @ i # rest"
    and "\<forall>j\<in>set pre. \<exists>sg. check_input c T j = Inr (True, sg)"
  shows "(prepare_input c T i = Inr (vk, sg, h) \<and> verify_digest c vk sg h = Inl e
            \<longrightarrow> snd (verify c T) = Inr False) \<and>
         (prepare_input c T i = Inl e' \<longrightarrow> snd (verify c T) = Inl e')"
proof -
  obtain log' where
    v: "verify_loop c T (pre @ i # rest) [] = verify_loop c T (i # rest) log'"
    using verify_loop_pass_prefix [OF assms(2), of "[]" "i # rest"] by auto
  show ?thesis
    using assms(1) v by (auto simp: verify_def check_input_def)
qed

theorem verify_exception_policy_witness:
  "inputs (sample_tx three_inputs) =
     [sample_input 0 signed_script_sig] @ sample_input 1 forged_script_sig #
     [sample_input 2 garbled_script_sig] \<and>
   check_input sample_collaborators (sample_tx three_inputs)
     (sample_input 0 signed_script_sig) = Inr (True, [0x02, 0x01, 0x01, 0x02, 0x01, 0x01]) \<and>
   prepare_input sample_collaborators (sample_tx three_inputs)
     (sample_input 1 forged_script_sig) =
     Inr (replicate 32 0xab @ replicate 32 0xab, [0x02, 0x01, 0x01, 0x02, 0x01, 0x02], [0xac]) \<and>
   verify_digest sample_collaborators (replicate 32 0xab @ replicate 32 0xab) [0x02, 0x01, 0x01, 0x02, 0x01, 0x02] [0xac] =
     Inl BadSignatureError \<and>
   snd (verify sample_collaborators (sample_tx three_inputs)) = Inr False \<and>
   inputs (sample_tx two_inputs) =
     [sample_input 0 signed_script_sig] @ sample_input 1 garbled_script_sig # [] \<and>
   check_input sample_collaborators (sample_tx two_inputs)
     (sample_input 0 signed_script_sig) = Inr (True, [0x02, 0x01, 0x01, 0x02, 0x01, 0x01]) \<and>
   prepare_input sample_collaborators (sample_tx two_inputs)
     (sample_input 1 garbled_script_sig) = Inl DerFailure \<and>
   snd (verify sample_collaborators (sample_tx two_inputs)) = Inl DerFailure"
proof -
  let ?c = sample_collaborators
  let ?T3 = "sample_tx three_inputs"
  let ?T2 = "sample_tx two_inputs"
  have split3: "inputs ?T3 = [sample_input 0 signed_script_sig] @
      sample_input 1 forged_script_sig # [sample_input 2 garbled_script_sig]"
    by (simp add: inputs_sample_tx three_inputs_def)
  have pre3: "\<forall>j\<in>set [sample_input 0 signed_script_sig].
      \<exists>sg. check_input ?c ?T3 j = Inr (True, sg)"
    by (simp add: check_signed_input)
  have bad: "verify_digest ?c (replicate 32 0xab @ replicate 32 0xab) [0x02, 0x01, 0x01, 0x02, 0x01, 0x02] [0xac] =
      Inl BadSignatureError"
    by (simp add: sample_collaborators_def)
  have r3: "snd (verify ?c ?T3) = Inr False"
    using verify_exception_policy [OF split3 pre3, of "replicate 32 0xab @ replicate 32 0xab"
        "[0x02, 0x01, 0x01, 0x02, 0x01, 0x02]" "[0xac]" BadSignatureError, THEN conjunct1]
      prepare_forged_input bad by blast
  have split2: "inputs ?T2 = [sample_input 0 signed_script_sig] @
      sample_input 1 garbled_script_sig # []"
    by (simp add: inputs_sample_tx two_inputs_def)
  have pre2: "\<forall>j\<in>set [sample_input 0 signed_script_sig].
      \<exists>sg. check_input ?c ?T2 j = Inr (True, sg)"
    by (simp add: check_signed_of_two)
  have r2: "snd (verify ?c ?T2) = Inl DerFailure"
    using verify_exception_policy [OF split2 pre2, of _ _ _ _ DerFailure, THEN conjunct2]
      prepare_garbled_of_two by blast
  show ?thesis
    using split3 split2 r3 r2 bad check_signed_input check_signed_of_two
      prepare_forged_input prepare_garbled_of_two by simp
qed

text \<open>
  C3 as stated fails: with an input whose script_sig is empty, \<open>verify\<close> does not return
  false. The \<open>IndexError\<close> of \<open>s[0]\<close> reaches the caller, and nothing is logged.
\<close>

theorem verify_swallows_all_counterexample:
  "verify sample_collaborators unsigned_input_tx = ([], Inl IndexError)"
  by (simp add: verify_def unsigned_input_tx_def sample_tx_def sample_input_def eval_defs)

text \<open>
  C4. \<open>verify\<close> returns true if and only if the check of every input passes. At the first
  input whose signature check fails, after inputs that all pass, the result is false at
  once: the log holds one entry for each input up to the failing one, the last of them the
  bad signature, and nothing of the inputs behind it, whatever their checks would give.
\<close>

theorem verify_all_or_first_failure:
  "(snd (verify c T) = Inr True \<longleftrightarrow>
      (\<forall>i\<in>set (inputs T). \<exists>sg. check_input c T i = Inr (True, sg))) \<and>
   (inputs T = pre @ i # rest \<and>
    (\<forall>j\<in>set pre. \<exists>sg. check_input c T j = Inr (True, sg)) \<and>
    check_input c T i = Inr (False, sg')
      \<longrightarrow> snd (verify c T) = Inr False \<and>
          length (fst (verify c T)) = Suc (length pre) \<and>
          last (fst (verify c T)) = BadSignature sg')"
proof (rule conjI)
  show "snd (verify c T) = Inr True \<longleftrightarrow>
      (\<forall>i\<in>set (inputs T). \<exists>sg. check_input c T i = Inr (True, sg))"
    by (simp add: verify_def verify_loop_True_iff)
next
  show "inputs T = pre @ i # rest \<and>
    (\<forall>j\<in>set pre. \<exists>sg. check_input c T j = Inr (True, sg)) \<and>
    check_input c T i = Inr (False, sg')
      \<longrightarrow> snd (verify c T) = Inr False \<and>
          length (fst (verify c T)) = Suc (length pre) \<and>
          last (fst (verify c T)) = BadSignature sg'"
  proof (rule impI)
    assume h: "inputs T = pre @ i # rest \<and>
      (\<forall>j\<in>set pre. \<exists>sg. check_input c T j = Inr (True, sg)) \<and>
      check_input c T i = Inr (False, sg')"
    then obtain log' where l: "length log' = length pre"
      and v: "verify_loop c T (pre @ i # rest) [] = verify_loop c T (i # rest) log'"
      using verify_loop_pass_prefix [of pre c T "[]" "i # rest"] by auto
    from h v have "verify c T = (log' @ [BadSignature sg'], Inr False)"
      by (simp add: verify_def)
    with l show "snd (verify c T) = Inr False \<and>
          length (fst (verify c T)) = Suc (length pre) \<and>
          last (fst (verify c T)) = BadSignature sg'"
      by simp
  qed
qed

text \<open>
  The witness: a transaction whose only input passes; and one of three inputs, the first
  passing, the second with a rejected signature, the third one whose check would raise.
\<close>

theorem verify_all_or_first_failure_witness:
  "check_input sample_collaborators (sample_tx [sample_input 0 signed_script_sig])
     (sample_input 0 signed_script_sig) = Inr (True, [0x02, 0x01, 0x01, 0x02, 0x01, 0x01]) \<and>
   snd (verify sample_collaborators (sample_tx [sample_input 0 signed_script_sig])) = Inr True \<and>
   inputs (sample_tx three_inputs) =
     [sample_input 0 signed_script_sig] @ sample_input 1 forged_script_sig #
     [sample_input 2 garbled_script_sig] \<and>
   check_input sample_collaborators (sample_tx three_inputs)
     (sample_input 0 signed_script_sig) = Inr (True, [0x02, 0x01, 0x01, 0x02, 0x01, 0x01]) \<and>
   check_input sample_collaborators (sample_tx three_inputs)
     (sample_input 1 forged_script_sig) = Inr (False, [0x02, 0x01, 0x01, 0x02, 0x01, 0x02]) \<and>
   check_input sample_collaborators (sample_tx three_inputs)
     (sample_input 2 garbled_script_sig) = Inl DerFailure \<and>
   snd (verify sample_collaborators (sample_tx three_inputs)) = Inr False \<and>
   length (fst (verify sample_collaborators (sample_tx three_inputs))) = 2 \<and>
   last (fst (verify sample_collaborators (sample_tx three_inputs))) = BadSignature [0x02, 0x01, 0x01, 0x02, 0x01, 0x02]"
proof -
  let ?c = sample_collaborators
  let ?T1 = "sample_tx [sample_input 0 signed_script_sig]"
  let ?T3 = "sample_tx three_inputs"
  have one: "\<forall>i\<in>set (inputs ?T1). \<exists>sg. check_input ?c ?T1 i = Inr (True, sg)"
    by (simp add: inputs_sample_tx check_only_signed_input)
  have r1: "snd (verify ?c ?T1) = Inr True"
    using verify_all_or_first_failure [of ?c ?T1, THEN conjunct1] one by blast
  have split: "inputs ?T3 = [sample_input 0 signed_script_sig] @
      sample_input 1 forged_script_sig # [sample_input 2 garbled_script_sig]"
    by (simp add: inputs_sample_tx three_inputs_def)
  have pre: "\<forall>j\<in>set [sample_input 0 signed_script_sig].
      \<exists>sg. check_input ?c ?T3 j = Inr (True, sg)"
    by (simp add: check_signed_input)
  have r3: "snd (verify ?c ?T3) = Inr False \<and>
      length (fst (verify ?c ?T3)) = Suc (length [sample_input 0 signed_script_sig]) \<and>
      last (fst (verify ?c ?T3)) = BadSignature [0x02, 0x01, 0x01, 0x02, 0x01, 0x02]"
    using verify_all_or_first_failure [of ?c ?T3 "[sample_input 0 signed_script_sig]"
        "sample_input 1 forged_script_sig" "[sample_input 2 garbled_script_sig]" "[0x02, 0x01, 0x01, 0x02, 0x01, 0x02]",
        THEN conjunct2] split pre check_forged_input by blast
  have g: "check_input ?c ?T3 (sample_input 2 garbled_script_sig) = Inl DerFailure"
    by (simp add: check_input_def prepare_garbled_input)
  show ?thesis
    using r1 r3 split g check_only_signed_input check_signed_input check_forged_input by simp
qed

text \<open>
  C5. The claim is that the full encoding prefixes every script with the VarInt of its
  length, whatever the length. The code does not: \<open>raw\<close> writes the length with
  \<open>struct.pack('B', ...)\<close>. For the script_sig of 253 bytes the bytes written hold the
  single byte \<open>0xfd\<close> before the script, where the VarInt of 253 is \<open>fd fd 00\<close>; for
  one of 256 bytes \<open>raw\<close> raises \<open>struct.error\<close>.
\<close>

theorem script_length_prefix_at_253:
  "raw sample_collaborators long_script_tx None = Inr long_script_bytes \<and>
   int_to_varbyteint 253 = Inr [0xfd, 0xfd, 0x00] \<and>
   raw sample_collaborators (sample_tx [sample_input 0 (replicate 256 0x00)]) None =
     Inl StructError"
proof -
  have "int_to_varbyteint 253 = Inr [0xfd, 0xfd, 0x00]"
    by (simp add: int_to_varbyteint_def)
  moreover have "raw sample_collaborators (sample_tx [sample_input 0 (replicate 256 0x00)]) None =
      Inl StructError"
    by (simp add: int_to_varbyteint_def raw_def sample_tx_def sample_input_def pack_B_def)
  ultimately show ?thesis
    by (simp add: raw_long_script_tx)
qed

text \<open>
  C6, as the code has it. The check on the hash is \<open>if not len(inp_hash)\<close>: where an
  input is due and no byte is left at its position, decoding fails with the error "Input
  transaction hash not found". Where 1 to 31 bytes are left, the check passes with the
  short hash, and decoding fails at the next read, the VarInt of the script length on an
  empty slice, with the failure of the VarInt codec.
\<close>

theorem truncated_hash:
  assumes "varbyteint_to_int (slice rawtx 4 13) = Inr (n_inputs, sz)"
    and "j < n_inputs"
    and "read_inputs rawtx (4 + sz) 0 j [] = Inr (inps, cursor)"
  shows "(length rawtx \<le> cursor
            \<longrightarrow> deserialize_transaction rawtx = Inl (TransactionError HashNotFound)) \<and>
         (cursor < length rawtx \<and> length rawtx < cursor + 32
            \<longrightarrow> deserialize_transaction rawtx = Inl FormatError)"
proof -
  from assms(2) obtain m where n: "n_inputs = j + Suc m"
    by (metis less_iff_Suc_add add_Suc_right)
  have "read_inputs rawtx (4 + sz) 0 (j + Suc m) [] =
      (case read_inputs rawtx (4 + sz) 0 j [] of
         Inl e \<Rightarrow> Inl e
       | Inr (inps, cursor') \<Rightarrow> read_inputs rawtx cursor' (0 + j) (Suc m) inps)"
    by (rule read_inputs_add)
  then have loop:
    "read_inputs rawtx (4 + sz) 0 n_inputs [] = read_inputs rawtx cursor j (Suc m) inps"
    by (simp only: n assms(3) sum.case prod.case add_0)
  show ?thesis
  proof (intro conjI impI)
    assume "length rawtx \<le> cursor"
    then have "read_inputs rawtx cursor j (Suc m) inps = Inl (TransactionError HashNotFound)"
      by (rule read_inputs_no_bytes)
    with loop assms(1) show "deserialize_transaction rawtx = Inl (TransactionError HashNotFound)"
      by (simp add: deserialize_transaction_def)
  next
    assume "cursor < length rawtx \<and> length rawtx < cursor + 32"
    then have "read_inputs rawtx cursor j (Suc m) inps = Inl FormatError"
      using read_inputs_partial [of cursor rawtx j m inps] by simp
    with loop assms(1) show "deserialize_transaction rawtx = Inl FormatError"
      by (simp add: deserialize_transaction_def)
  qed
qed

theorem truncated_hash_witness:
  "varbyteint_to_int (slice missing_second_hash_tx 4 13) = Inr (2, 1) \<and>
   read_inputs missing_second_hash_tx 5 0 1 [] =
     Inr ([\<lparr>input_id = 0, prev_hash = replicate 32 0x11, output_index = [0, 0, 0, 1],
            script_sig = [], sequence = [0xff, 0xff, 0xff, 0xff]\<rparr>], 46) \<and>
   length missing_second_hash_tx = 46 \<and>
   deserialize_transaction missing_second_hash_tx = Inl (TransactionError HashNotFound) \<and>
   varbyteint_to_int (slice partial_hash_tx 4 13) = Inr (1, 1) \<and>
   read_inputs partial_hash_tx 5 0 0 [] = Inr ([], 5) \<and>
   length partial_hash_tx = 7 \<and>
   deserialize_transaction partial_hash_tx = Inl FormatError"
  using truncated_hash [where rawtx = missing_second_hash_tx and n_inputs = 2 and sz = 1 and
      j = 1 and cursor = 46 and
      inps = "[\<lparr>input_id = 0, prev_hash = replicate 32 0x11, output_index = [0, 0, 0, 1],
                script_sig = [], sequence = [0xff, 0xff, 0xff, 0xff]\<rparr>]"]
    truncated_hash [where rawtx = partial_hash_tx and n_inputs = 1 and sz = 1 and
      j = 0 and cursor = 5 and inps = "[]"]
  by (simp add: missing_second_hash_tx_def partial_hash_tx_def slice_def
      varbyteint_to_int_def Let_def)

text \<open>
  C6 as stated fails: two bytes stand where the hash of the only input should be, and the
  error is not the one about the missing hash.
\<close>

theorem partial_hash_counterexample:
  "length (slice partial_hash_tx 5 37) = 2 \<and>
   deserialize_transaction partial_hash_tx = Inl FormatError"
  by (simp add: partial_hash_tx_def deserialize_transaction_def slice_def
      varbyteint_to_int_def Let_def)

text \<open>
  C7, as the code has it. \<open>parse_script_sig\<close> has no check of a push length against the
  buffer. An empty script_sig raises \<open>IndexError\<close>; an exception of the DER routine is
  passed on; a first push length that reaches the end of the buffer or passes it raises
  \<open>IndexError\<close> at the read of the second length; otherwise the parser returns, and the
  public key is what is left of the buffer where the second length asks for more.
\<close>

theorem parse_script_sig_lengths:
  "parse_script_sig c [] = Inl IndexError \<and>
   (convert_der_sig c (slice (l # t) 1 (unat l)) = Inl e
      \<longrightarrow> parse_script_sig c (l # t) = Inl e) \<and>
   (convert_der_sig c (slice (l # t) 1 (unat l)) = Inr sg \<and> length t \<le> unat l
      \<longrightarrow> parse_script_sig c (l # t) = Inl IndexError) \<and>
   (convert_der_sig c (slice (l # t) 1 (unat l)) = Inr sg \<and> unat l < length t
      \<longrightarrow> parse_script_sig c (l # t) =
            Inr (sg, slice (l # t) (unat l + 2) (unat l + unat ((l # t) ! (unat l + 1)) + 2)) \<and>
          length (slice (l # t) (unat l + 2) (unat l + unat ((l # t) ! (unat l + 1)) + 2)) =
            min (unat ((l # t) ! (unat l + 1))) (length t - (unat l + 1)))"
  by (auto simp: parse_script_sig_def index_def slice_def)

theorem parse_script_sig_lengths_witness:
  "parse_script_sig sample_collaborators [] = Inl IndexError \<and>
   convert_der_sig sample_collaborators (slice garbled_script_sig 1 9) = Inl DerFailure \<and>
   parse_script_sig sample_collaborators garbled_script_sig = Inl DerFailure \<and>
   convert_der_sig sample_collaborators (slice short_signature_script_sig 1 71) =
     Inr [0x02, 0x01, 0x01, 0x02, 0x01, 0x01] \<and>
   length short_signature_script_sig = 9 \<and>
   parse_script_sig sample_collaborators short_signature_script_sig = Inl IndexError \<and>
   convert_der_sig sample_collaborators (slice short_key_script_sig 1 9) =
     Inr [0x02, 0x01, 0x01, 0x02, 0x01, 0x01] \<and>
   short_key_script_sig ! 10 = 0x21 \<and>
   parse_script_sig sample_collaborators short_key_script_sig =
     Inr ([0x02, 0x01, 0x01, 0x02, 0x01, 0x01], [0x02, 0xab])"
  using parse_script_sig_lengths [where c = sample_collaborators and l = "0x09" and
      t = "[0x31, 0x06, 0x02, 0x01, 0x01, 0x02, 0x01, 0x01, 0x01, 0x21, 0x02] @ replicate 32 0xab"
      and e = DerFailure]
    parse_script_sig_lengths [where c = sample_collaborators and l = "0x47" and
      t = "[0x30, 0x06, 0x02, 0x01, 0x01, 0x02, 0x01, 0x01]" and
      sg = "[0x02, 0x01, 0x01, 0x02, 0x01, 0x01]"]
    parse_script_sig_lengths [where c = sample_collaborators and l = "0x09" and
      t = "[0x30, 0x06, 0x02, 0x01, 0x01, 0x02, 0x01, 0x01, 0x01, 0x21, 0x02, 0xab]" and
      sg = "[0x02, 0x01, 0x01, 0x02, 0x01, 0x01]"]
  by (simp add: garbled_script_sig_def short_signature_script_sig_def short_key_script_sig_def
      sample_collaborators_def slice_def)

text \<open>
  C7 as stated fails: the key push announces 33 bytes, two are there, and the parser
  returns the two bytes as the public key, with no error at all.
\<close>

theorem parse_script_sig_counterexample:
  "parse_script_sig sample_collaborators short_key_script_sig =
     Inr ([0x02, 0x01, 0x01, 0x02, 0x01, 0x01], [0x02, 0xab])"
  by (simp add: parse_script_sig_def short_key_script_sig_def sample_collaborators_def
      index_def slice_def)

text \<open>
  C8. A buffer that announces more inputs than fit into it is rejected with an error
  of the kind \<open>FormatError\<close>: the missing-hash error where an input starts at the end of
  the buffer or behind it, the failure of the VarInt codec where the buffer ends before a
  script length, or before the output count when the last input is cut short.
\<close>

theorem input_count_exceeds_buffer:
  assumes "varbyteint_to_int (slice rawtx 4 13) = Inr (n_inputs, sz)"
    and "full_inputs rawtx (4 + sz) n_inputs < n_inputs"
  shows "\<exists>e. deserialize_transaction rawtx = Inl e \<and> is_format_error e"
proof -
  from read_inputs_short [OF assms(2), of 0 "[]"]
  consider e where "read_inputs rawtx (4 + sz) 0 n_inputs [] = Inl e" "is_format_error e"
    | inps cursor' where "read_inputs rawtx (4 + sz) 0 n_inputs [] = Inr (inps, cursor')"
        "length rawtx < cursor'"
    by blast
  then show ?thesis
  proof cases
    case 1
    with assms(1) show ?thesis
      by (simp add: deserialize_transaction_def)
  next
    case 2
    then have "length inps = n_inputs"
      using read_inputs_length [of rawtx "4 + sz" 0 n_inputs "[]" inps cursor'] by simp
    with 2 assms(1) have "deserialize_transaction rawtx = Inl FormatError"
      by (simp add: deserialize_transaction_def)
    then show ?thesis by simp
  qed
qed


theorem input_count_exceeds_buffer_witness:
  "varbyteint_to_int (slice short_second_input_tx 4 13) = Inr (2, 1) \<and>
   full_inputs short_second_input_tx 5 2 = 1 \<and>
   deserialize_transaction short_second_input_tx = Inl FormatError \<and>
   is_format_error FormatError"
  using input_count_exceeds_buffer [where rawtx = short_second_input_tx and n_inputs = 2
      and sz = 1]
  by (simp add: short_second_input_tx_def deserialize_transaction_def slice_def
      varbyteint_to_int_def Let_def)

text \<open>
  C9. A buffer whose output count is zero is rejected with the error "no outputs found":
  whenever the version, the input count and the inputs have been read and the VarInt at
  the cursor after the inputs is zero, \<open>deserialize_transaction\<close> raises
  \<open>TransactionError NoOutputs\<close>. And no decoding returns a transaction with an empty
  output list.
\<close>

theorem zero_outputs_rejected:
  "(varbyteint_to_int (slice rawtx 4 13) = Inr (n_inputs, sz) \<and>
    read_inputs rawtx (4 + sz) 0 n_inputs [] = Inr (inps, cursor) \<and>
    varbyteint_to_int (slice rawtx cursor (cursor + 9)) = Inr (0, sz')
      \<longrightarrow> deserialize_transaction rawtx = Inl (TransactionError NoOutputs)) \<and>
   (import_raw r = Inr T \<longrightarrow> outputs T \<noteq> [])"
proof (rule conjI)
  show "varbyteint_to_int (slice rawtx 4 13) = Inr (n_inputs, sz) \<and>
    read_inputs rawtx (4 + sz) 0 n_inputs [] = Inr (inps, cursor) \<and>
    varbyteint_to_int (slice rawtx cursor (cursor + 9)) = Inr (0, sz')
      \<longrightarrow> deserialize_transaction rawtx = Inl (TransactionError NoOutputs)"
  proof (rule impI)
    assume h: "varbyteint_to_int (slice rawtx 4 13) = Inr (n_inputs, sz) \<and>
      read_inputs rawtx (4 + sz) 0 n_inputs [] = Inr (inps, cursor) \<and>
      varbyteint_to_int (slice rawtx cursor (cursor + 9)) = Inr (0, sz')"
    then have "length inps = n_inputs"
      using read_inputs_length [of rawtx "4 + sz" 0 n_inputs "[]" inps cursor] by simp
    with h show "deserialize_transaction rawtx = Inl (TransactionError NoOutputs)"
      by (simp add: deserialize_transaction_def)
  qed
next
  show "import_raw r = Inr T \<longrightarrow> outputs T \<noteq> []"
    by (auto simp: import_raw_def split: sum.splits prod.splits
             dest: deserialize_outputs_nonempty)
qed

theorem zero_outputs_rejected_witness:
  "varbyteint_to_int (slice zero_outputs_tx 4 13) = Inr (1, 1) \<and>
   read_inputs zero_outputs_tx 5 0 1 [] =
     Inr ([\<lparr>input_id = 0, prev_hash = replicate 32 0x11, output_index = [0, 0, 0, 1],
            script_sig = [], sequence = [0xff, 0xff, 0xff, 0xff]\<rparr>], 46) \<and>
   varbyteint_to_int (slice zero_outputs_tx 46 55) = Inr (0, 1) \<and>
   deserialize_transaction zero_outputs_tx = Inl (TransactionError NoOutputs) \<and>
   import_raw zero_inputs_tx =
     Inr \<lparr>inputs = [], outputs = [\<lparr>amount = 10000, script = [0x51, 0x52]\<rparr>],
          version = [0, 0, 0, 1], locktime = 7\<rparr> \<and>
   outputs \<lparr>inputs = [], outputs = [\<lparr>amount = 10000, script = [0x51, 0x52]\<rparr>],
            version = [0, 0, 0, 1], locktime = 7\<rparr> \<noteq> []"
  using zero_outputs_rejected [of zero_outputs_tx 1 1
      "[\<lparr>input_id = 0, prev_hash = replicate 32 0x11, output_index = [0, 0, 0, 1],
         script_sig = [], sequence = [0xff, 0xff, 0xff, 0xff]\<rparr>]" 46 1 zero_inputs_tx
      "\<lparr>inputs = [], outputs = [\<lparr>amount = 10000, script = [0x51, 0x52]\<rparr>],
        version = [0, 0, 0, 1], locktime = 7\<rparr>"]
  by (simp add: zero_outputs_tx_def zero_inputs_tx_def import_raw_def
      deserialize_transaction_def slice_def varbyteint_to_int_def Let_def
      change_base_256_10_def)

text \<open>
  C10. The inputs have no such check: a buffer whose input count is zero and whose
  outputs decode (at least one of them) gives a transaction with an empty input list, and
  \<open>verify\<close> on it returns true with an empty log, its loop running zero times.
\<close>

theorem zero_inputs_accepted:
  assumes "varbyteint_to_int (slice rawtx 4 13) = Inr (0, sz)"
    and "varbyteint_to_int (slice rawtx (4 + sz) (4 + sz + 9)) = Inr (n_outputs, sz')"
    and "read_outputs rawtx (4 + sz + sz') n_outputs [] = Inr (outs, cursor)"
    and "0 < n_outputs"
  shows "import_raw rawtx =
           Inr \<lparr>inputs = [], outputs = outs, version = rev (slice rawtx 0 4),
                locktime = change_base_256_10 (rev (slice rawtx cursor (cursor + 4)))\<rparr> \<and>
         verify c \<lparr>inputs = [], outputs = outs, version = rev (slice rawtx 0 4),
                locktime = change_base_256_10 (rev (slice rawtx cursor (cursor + 4)))\<rparr> =
           ([], Inr True)"
proof -
  from assms(3,4) have "outs \<noteq> []"
    using read_outputs_length [of rawtx "4 + sz + sz'" n_outputs "[]" outs cursor] by auto
  with assms show ?thesis
    by (simp add: import_raw_def deserialize_transaction_def verify_def)
qed

theorem zero_inputs_accepted_witness:
  "varbyteint_to_int (slice zero_inputs_tx 4 13) = Inr (0, 1) \<and>
   varbyteint_to_int (slice zero_inputs_tx 5 14) = Inr (1, 1) \<and>
   read_outputs zero_inputs_tx 6 1 [] = Inr ([\<lparr>amount = 10000, script = [0x51, 0x52]\<rparr>], 17) \<and>
   import_raw zero_inputs_tx =
     Inr \<lparr>inputs = [], outputs = [\<lparr>amount = 10000, script = [0x51, 0x52]\<rparr>],
          version = [0, 0, 0, 1], locktime = 7\<rparr> \<and>
   verify sample_collaborators
     \<lparr>inputs = [], outputs = [\<lparr>amount = 10000, script = [0x51, 0x52]\<rparr>],
      version = [0, 0, 0, 1], locktime = 7\<rparr> = ([], Inr True)"
  using zero_inputs_accepted [of zero_inputs_tx 1 1 1
      "[\<lparr>amount = 10000, script = [0x51, 0x52]\<rparr>]" 17 sample_collaborators]
  by (simp add: zero_inputs_tx_def slice_def varbyteint_to_int_def Let_def
      change_base_256_10_def)

end
